theory Spec2Isabelle
  imports Main "HOL-Library.Multiset"
begin

section \<open>Tetris: pieces\<close>

text \<open>
  A shallow embedding of \<^verbatim>\<open>src/tetris/gametypes.py\<close>. Python integers are \<open>int\<close>,
  a grid coordinate is a pair (column, row). Drawing, images and screen coordinates are
  left out: no function modelled here reads them.
\<close>

type_synonym coord = "int \<times> int"

text \<open>\<^verbatim>\<open>Tetromino.RIGHT, DOWN, LEFT, UP = range(4)\<close>\<close>

datatype orientation = RIGHT | DOWN | LEFT | UP

text \<open>\<^verbatim>\<open>Input.TOGGLE_PAUSE, MOVE_DOWN, MOVE_LEFT, MOVE_RIGHT, ROTATE_CLOCKWISE = range(5)\<close>\<close>

datatype Input = TOGGLE_PAUSE | MOVE_DOWN | MOVE_LEFT | MOVE_RIGHT | ROTATE_CLOCKWISE

text \<open>
  The seven entries of \<^verbatim>\<open>TetrominoType.TYPES\<close>, in the order of the list, named after
  the comment each entry carries.
\<close>

datatype TetrominoType =
  LineShape | SquareShape | LShape | ReverseLShape | ZShape | SShape | TShape

definition TYPES :: "TetrominoType list" where
  "TYPES = [LineShape, SquareShape, LShape, ReverseLShape, ZShape, SShape, TShape]"

fun localBlockCoordsByOrientation :: "TetrominoType \<Rightarrow> orientation \<Rightarrow> coord list" where
  "localBlockCoordsByOrientation LineShape RIGHT = [(0, 1), (1, 1), (2, 1), (3, 1)]"
| "localBlockCoordsByOrientation LineShape DOWN = [(1, 0), (1, 1), (1, 2), (1, 3)]"
| "localBlockCoordsByOrientation LineShape LEFT = [(0, 2), (1, 2), (2, 2), (3, 2)]"
| "localBlockCoordsByOrientation LineShape UP = [(2, 0), (2, 1), (2, 2), (2, 3)]"
| "localBlockCoordsByOrientation SquareShape RIGHT = [(0, 0), (0, 1), (1, 0), (1, 1)]"
| "localBlockCoordsByOrientation SquareShape DOWN = [(0, 0), (0, 1), (1, 0), (1, 1)]"
| "localBlockCoordsByOrientation SquareShape LEFT = [(0, 0), (0, 1), (1, 0), (1, 1)]"
| "localBlockCoordsByOrientation SquareShape UP = [(0, 0), (0, 1), (1, 0), (1, 1)]"
| "localBlockCoordsByOrientation LShape RIGHT = [(0, 1), (1, 1), (2, 1), (2, 2)]"
| "localBlockCoordsByOrientation LShape DOWN = [(1, 2), (1, 1), (1, 0), (2, 0)]"
| "localBlockCoordsByOrientation LShape LEFT = [(0, 0), (0, 1), (1, 1), (2, 1)]"
| "localBlockCoordsByOrientation LShape UP = [(0, 2), (1, 2), (1, 1), (1, 0)]"
| "localBlockCoordsByOrientation ReverseLShape RIGHT = [(0, 2), (0, 1), (1, 1), (2, 1)]"
| "localBlockCoordsByOrientation ReverseLShape DOWN = [(2, 2), (1, 2), (1, 1), (1, 0)]"
| "localBlockCoordsByOrientation ReverseLShape LEFT = [(0, 1), (1, 1), (2, 1), (2, 0)]"
| "localBlockCoordsByOrientation ReverseLShape UP = [(0, 0), (1, 0), (1, 1), (1, 2)]"
| "localBlockCoordsByOrientation ZShape RIGHT = [(0, 2), (1, 2), (1, 1), (2, 1)]"
| "localBlockCoordsByOrientation ZShape DOWN = [(2, 2), (2, 1), (1, 1), (1, 0)]"
| "localBlockCoordsByOrientation ZShape LEFT = [(0, 1), (1, 1), (1, 0), (2, 0)]"
| "localBlockCoordsByOrientation ZShape UP = [(0, 0), (0, 1), (1, 1), (1, 2)]"
| "localBlockCoordsByOrientation SShape RIGHT = [(0, 1), (1, 1), (1, 2), (2, 2)]"
| "localBlockCoordsByOrientation SShape DOWN = [(1, 2), (1, 1), (2, 1), (2, 0)]"
| "localBlockCoordsByOrientation SShape LEFT = [(0, 0), (1, 0), (1, 1), (2, 1)]"
| "localBlockCoordsByOrientation SShape UP = [(0, 2), (0, 1), (1, 1), (1, 0)]"
| "localBlockCoordsByOrientation TShape RIGHT = [(0, 1), (1, 1), (1, 2), (2, 1)]"
| "localBlockCoordsByOrientation TShape DOWN = [(1, 2), (1, 1), (1, 0), (2, 1)]"
| "localBlockCoordsByOrientation TShape LEFT = [(0, 1), (1, 1), (1, 0), (2, 1)]"
| "localBlockCoordsByOrientation TShape UP = [(0, 1), (1, 0), (1, 1), (1, 2)]"

text \<open>\<^verbatim>\<open>CLOCKWISE_ROTATIONS = {RIGHT: DOWN, DOWN: LEFT, LEFT: UP, UP: RIGHT}\<close>\<close>

fun CLOCKWISE_ROTATIONS :: "orientation \<Rightarrow> orientation" where
  "CLOCKWISE_ROTATIONS RIGHT = DOWN"
| "CLOCKWISE_ROTATIONS DOWN = LEFT"
| "CLOCKWISE_ROTATIONS LEFT = UP"
| "CLOCKWISE_ROTATIONS UP = RIGHT"

text \<open>
  A \<^verbatim>\<open>Tetromino\<close> object. The attributes \<^verbatim>\<open>x\<close> and \<^verbatim>\<open>y\<close> are the fields \<open>xpos\<close> and
  \<open>ypos\<close> (a field named \<open>x\<close> would capture every variable of that name);
  \<open>blockBoardCoords\<close> is the cached list of occupied cells, which \<^verbatim>\<open>clearRow\<close>
  overwrites without touching the anchor.
\<close>

record tetromino =
  xpos :: int
  ypos :: int
  tetrominoType :: TetrominoType
  orientation :: orientation
  blockBoardCoords :: "coord list"

definition calcBlockBoardCoords :: "tetromino \<Rightarrow> coord list" where
  "calcBlockBoardCoords t =
     map (\<lambda>c. (fst c + xpos t, snd c + ypos t))
       (localBlockCoordsByOrientation (tetrominoType t) (orientation t))"

text \<open>
  \<^verbatim>\<open>Tetromino.__init__\<close>: the kind is what \<^verbatim>\<open>random.choice(TetrominoType.TYPES)\<close>
  returned, passed in as \<open>k\<close>.
\<close>

definition Tetromino_init :: "TetrominoType \<Rightarrow> tetromino" where
  "Tetromino_init k =
     (let t = \<lparr>xpos = 0, ypos = 0, tetrominoType = k, orientation = RIGHT,
               blockBoardCoords = []\<rparr>
      in t\<lparr>blockBoardCoords := calcBlockBoardCoords t\<rparr>)"

definition recalc :: "tetromino \<Rightarrow> tetromino" where
  "recalc t = t\<lparr>blockBoardCoords := calcBlockBoardCoords t\<rparr>"

definition setPosition :: "tetromino \<Rightarrow> int \<Rightarrow> int \<Rightarrow> tetromino" where
  "setPosition t nx ny = recalc (t\<lparr>xpos := nx, ypos := ny\<rparr>)"

definition moveDown :: "tetromino \<Rightarrow> tetromino" where
  "moveDown t = recalc (t\<lparr>ypos := ypos t - 1\<rparr>)"

definition moveUp :: "tetromino \<Rightarrow> tetromino" where
  "moveUp t = recalc (t\<lparr>ypos := ypos t + 1\<rparr>)"

definition moveLeft :: "tetromino \<Rightarrow> tetromino" where
  "moveLeft t = recalc (t\<lparr>xpos := xpos t - 1\<rparr>)"

definition moveRight :: "tetromino \<Rightarrow> tetromino" where
  "moveRight t = recalc (t\<lparr>xpos := xpos t + 1\<rparr>)"

definition rotateClockwise :: "tetromino \<Rightarrow> tetromino" where
  "rotateClockwise t = recalc (t\<lparr>orientation := CLOCKWISE_ROTATIONS (orientation t)\<rparr>)"

definition rotateCounterclockwise :: "tetromino \<Rightarrow> tetromino" where
  "rotateCounterclockwise t =
     (let t1 = t\<lparr>orientation := CLOCKWISE_ROTATIONS (orientation t)\<rparr>;
          t2 = t1\<lparr>orientation := CLOCKWISE_ROTATIONS (orientation t1)\<rparr>;
          t3 = t2\<lparr>orientation := CLOCKWISE_ROTATIONS (orientation t2)\<rparr>
      in recalc t3)"

text \<open>
  \<^verbatim>\<open>command\<close> and \<^verbatim>\<open>undoCommand\<close>: an \<^verbatim>\<open>if/elif\<close> chain with no \<^verbatim>\<open>else\<close>, so
  \<^verbatim>\<open>TOGGLE_PAUSE\<close> leaves the piece as it is (the cached cells are not recomputed).
\<close>

fun command :: "tetromino \<Rightarrow> Input \<Rightarrow> tetromino" where
  "command t MOVE_DOWN = moveDown t"
| "command t MOVE_RIGHT = moveRight t"
| "command t MOVE_LEFT = moveLeft t"
| "command t ROTATE_CLOCKWISE = rotateClockwise t"
| "command t TOGGLE_PAUSE = t"

fun undoCommand :: "tetromino \<Rightarrow> Input \<Rightarrow> tetromino" where
  "undoCommand t MOVE_DOWN = moveUp t"
| "undoCommand t MOVE_RIGHT = moveLeft t"
| "undoCommand t MOVE_LEFT = moveRight t"
| "undoCommand t ROTATE_CLOCKWISE = rotateCounterclockwise t"
| "undoCommand t TOGGLE_PAUSE = t"

text \<open>
  \<^verbatim>\<open>Tetromino.clearRow\<close>: the loop over the cached cells, then the object with the new
  list and the flag "any blocks remaining".
\<close>

fun clearRowCoords :: "int \<Rightarrow> coord list \<Rightarrow> coord list" where
  "clearRowCoords boardGridRow [] = []"
| "clearRowCoords boardGridRow (c # cs) =
     (if snd c > boardGridRow then [(fst c, snd c - 1)] else []) @
     (if snd c < boardGridRow then [c] else []) @
     clearRowCoords boardGridRow cs"

definition Tetromino_clearRow :: "tetromino \<Rightarrow> int \<Rightarrow> tetromino \<times> bool" where
  "Tetromino_clearRow t boardGridRow =
     (let t' = t\<lparr>blockBoardCoords := clearRowCoords boardGridRow (blockBoardCoords t)\<rparr>
      in (t', length (blockBoardCoords t') > 0))"

section \<open>Tetris: the board\<close>

text \<open>
  Python variables hold references to \<^verbatim>\<open>Tetromino\<close> objects, and \<^verbatim>\<open>updateTick\<close> appends
  the falling object itself to \<^verbatim>\<open>self.tetrominos\<close>: the list and \<^verbatim>\<open>self.fallingTetromino\<close>
  then name one object, which \<^verbatim>\<open>clearRow\<close> mutates. So the objects live in an explicit
  store \<open>heap\<close>, the board holds references, and \<open>nextRef\<close> counts the objects created
  (the next fresh reference).
\<close>

type_synonym ref = nat

datatype error = KeyError int

record board =
  gridWidth :: int
  gridHeight :: int
  spawnX :: int
  spawnY :: int
  heap :: "ref \<rightharpoonup> tetromino"
  nextRef :: ref
  nextTetromino :: ref
  fallingTetromino :: ref
  tetrominos :: "ref list"

definition STARTING_ZONE_HEIGHT :: int where
  "STARTING_ZONE_HEIGHT = 4"

definition NEXT_X :: int where
  "NEXT_X = - 5"

definition NEXT_Y :: int where
  "NEXT_Y = 20"

definition deref :: "board \<Rightarrow> ref \<Rightarrow> tetromino" where
  "deref b r = the (heap b r)"

text \<open>
  \<^verbatim>\<open>spawnTetromino\<close>; \<open>k\<close> is the kind that \<^verbatim>\<open>random.choice\<close> returns inside the
  \<^verbatim>\<open>Tetromino()\<close> call.
\<close>

definition spawnTetromino :: "board \<Rightarrow> TetrominoType \<Rightarrow> board" where
  "spawnTetromino b k =
     (let b1 = b\<lparr>fallingTetromino := nextTetromino b\<rparr>;
          b2 = b1\<lparr>heap := (heap b1)(fallingTetromino b1 \<mapsto>
                  setPosition (deref b1 (fallingTetromino b1)) (spawnX b1) (spawnY b1))\<rparr>;
          n = nextRef b2;
          b3 = b2\<lparr>heap := (heap b2)(n \<mapsto> Tetromino_init k), nextRef := n + 1,
                  nextTetromino := n\<rparr>
      in b3\<lparr>heap := (heap b3)(nextTetromino b3 \<mapsto>
                  setPosition (deref b3 (nextTetromino b3)) NEXT_X NEXT_Y)\<rparr>)"

text \<open>
  \<^verbatim>\<open>Board.__init__\<close>. \<^verbatim>\<open>int(gridWidth * 1/3)\<close> truncates toward zero (Python 3; Python 2
  divides with floor, which is the same for a width that is not negative).
  \<^verbatim>\<open>fallingTetromino\<close> starts as \<^verbatim>\<open>None\<close> and is set by \<^verbatim>\<open>spawnTetromino\<close>, which does not
  read it: the field holds reference 0 until then.
\<close>

definition Board_init :: "int \<Rightarrow> int \<Rightarrow> TetrominoType \<Rightarrow> TetrominoType \<Rightarrow> board" where
  "Board_init gw gh k1 k2 =
     (let b0 = \<lparr>gridWidth = gw, gridHeight = gh,
                spawnX = (if 0 \<le> gw then gw div 3 else - ((- gw) div 3)),
                spawnY = gh,
                heap = [0 \<mapsto> Tetromino_init k1], nextRef = 1,
                nextTetromino = 0, fallingTetromino = 0, tetrominos = []\<rparr>
      in (spawnTetromino b0 k2)\<lparr>tetrominos := []\<rparr>)"

definition nonFallingBlockCoords :: "board \<Rightarrow> coord list" where
  "nonFallingBlockCoords b = concat (map (\<lambda>r. blockBoardCoords (deref b r)) (tetrominos b))"

fun validCoords :: "int \<Rightarrow> coord list \<Rightarrow> coord list \<Rightarrow> bool" where
  "validCoords gw nonFalling [] = True"
| "validCoords gw nonFalling (c # cs) =
     (let outOfBounds = (fst c < 0 \<or> fst c \<ge> gw \<or> snd c < 0);
          overlapping = (c \<in> set nonFalling)
      in if outOfBounds \<or> overlapping then False else validCoords gw nonFalling cs)"

definition isValidPosition :: "board \<Rightarrow> bool" where
  "isValidPosition b =
     validCoords (gridWidth b) (nonFallingBlockCoords b)
       (blockBoardCoords (deref b (fallingTetromino b)))"

text \<open>
  \<^verbatim>\<open>findFullRows\<close>. The dictionary \<^verbatim>\<open>rowCounts\<close> gets its keys from
  \<^verbatim>\<open>range(gridHeight + STARTING_ZONE_HEIGHT)\<close>; \<^verbatim>\<open>rowCounts[coord[1]] += 1\<close> raises
  \<^verbatim>\<open>KeyError\<close> on any other row. No key is added later, so the last loop visits the keys
  in the order of the range.
\<close>

definition initRowCounts :: "int \<Rightarrow> (int \<rightharpoonup> int)" where
  "initRowCounts n = foldl (\<lambda>rc i. rc(i \<mapsto> 0)) Map.empty [0..n - 1]"

fun countRows :: "(int \<rightharpoonup> int) \<Rightarrow> coord list \<Rightarrow> error + (int \<rightharpoonup> int)" where
  "countRows rowCounts [] = Inr rowCounts"
| "countRows rowCounts (c # cs) =
     (case rowCounts (snd c) of
        None \<Rightarrow> Inl (KeyError (snd c))
      | Some n \<Rightarrow> countRows (rowCounts(snd c \<mapsto> n + 1)) cs)"

definition findFullRows :: "board \<Rightarrow> error + int list" where
  "findFullRows b =
     (case countRows (initRowCounts (gridHeight b + STARTING_ZONE_HEIGHT))
             (nonFallingBlockCoords b) of
        Inl e \<Rightarrow> Inl e
      | Inr rowCounts \<Rightarrow>
          Inr (filter (\<lambda>row. rowCounts row = Some (gridWidth b))
                 [0..gridHeight b + STARTING_ZONE_HEIGHT - 1]))"

text \<open>
  \<^verbatim>\<open>Board.clearRow\<close>: every object of the list is mutated in the store, in list order;
  the new list keeps the references whose object has blocks left.
\<close>

fun clearRowLoop ::
  "(ref \<rightharpoonup> tetromino) \<Rightarrow> int \<Rightarrow> ref list \<Rightarrow> ref list \<Rightarrow> (ref \<rightharpoonup> tetromino) \<times> ref list" where
  "clearRowLoop h gridRow [] kept = (h, kept)"
| "clearRowLoop h gridRow (p # ps) kept =
     (case Tetromino_clearRow (the (h p)) gridRow of
        (t', remaining) \<Rightarrow>
          clearRowLoop (h(p \<mapsto> t')) gridRow ps (if remaining then kept @ [p] else kept))"

definition clearRow :: "board \<Rightarrow> int \<Rightarrow> board" where
  "clearRow b gridRow =
     (case clearRowLoop (heap b) gridRow (tetrominos b) [] of
        (h, kept) \<Rightarrow> b\<lparr>heap := h, tetrominos := kept\<rparr>)"

text \<open>\<^verbatim>\<open>gridRows.sort(reverse=True)\<close>, then \<^verbatim>\<open>clearRow\<close> for each row.\<close>

definition clearRows :: "board \<Rightarrow> int list \<Rightarrow> board" where
  "clearRows b gridRows = foldl clearRow b (rev (sort gridRows))"

definition commandFallingTetromino :: "board \<Rightarrow> Input \<Rightarrow> board" where
  "commandFallingTetromino b c =
     (let f = fallingTetromino b;
          b1 = b\<lparr>heap := (heap b)(f \<mapsto> command (deref b f) c)\<rparr>
      in if \<not> isValidPosition b1
         then b1\<lparr>heap := (heap b1)(f \<mapsto> undoCommand (deref b1 f) c)\<rparr>
         else b1)"

fun inStartZoneCoords :: "int \<Rightarrow> coord list \<Rightarrow> bool" where
  "inStartZoneCoords gh [] = False"
| "inStartZoneCoords gh (c # cs) = (if snd c \<ge> gh then True else inStartZoneCoords gh cs)"

definition isInStartZone :: "board \<Rightarrow> tetromino \<Rightarrow> bool" where
  "isInStartZone b t = inStartZoneCoords (gridHeight b) (blockBoardCoords t)"

text \<open>
  \<^verbatim>\<open>updateTick\<close>. The result is the board after the call with the returned pair, or the
  \<^verbatim>\<open>KeyError\<close> that \<^verbatim>\<open>findFullRows\<close> raised.
\<close>

definition updateTick :: "board \<Rightarrow> TetrominoType \<Rightarrow> error + (board \<times> int \<times> bool)" where
  "updateTick b k =
     (let f = fallingTetromino b;
          b1 = b\<lparr>heap := (heap b)(f \<mapsto> command (deref b f) MOVE_DOWN)\<rparr>
      in if \<not> isValidPosition b1
         then
           (let b2 = b1\<lparr>heap := (heap b1)(f \<mapsto> undoCommand (deref b1 f) MOVE_DOWN)\<rparr>;
                b3 = b2\<lparr>tetrominos := tetrominos b2 @ [f]\<rparr>
            in case findFullRows b3 of
                 Inl e \<Rightarrow> Inl e
               | Inr fullRows \<Rightarrow>
                   (let b4 = clearRows b3 fullRows;
                        gameLost = isInStartZone b4 (deref b4 (fallingTetromino b4));
                        b5 = (if \<not> gameLost then spawnTetromino b4 k else b4)
                    in Inr (b5, int (length fullRows), gameLost)))
         else Inr (b1, 0, False))"

section \<open>Tetris: the game loop\<close>

text \<open>
  \<^verbatim>\<open>GameTick\<close>: the flags of the timer; \<open>scheduled\<close> counts the calls of
  \<^verbatim>\<open>pyglet.clock.schedule_once(setTick, ...)\<close>. The clock itself is outside the program:
  when it fires, \<^verbatim>\<open>setTick\<close> sets \<open>tick\<close>.
\<close>

record GameTick =
  tick :: bool
  started :: bool
  scheduled :: nat

definition GameTick_init :: "bool \<Rightarrow> GameTick" where
  "GameTick_init tickOnFirstCall =
     \<lparr>tick = tickOnFirstCall, started = tickOnFirstCall, scheduled = 0\<rparr>"

definition setTick :: "GameTick \<Rightarrow> GameTick" where
  "setTick tk = tk\<lparr>tick := True\<rparr>"

definition isTick :: "GameTick \<Rightarrow> GameTick \<times> bool" where
  "isTick tk =
     (if \<not> started tk then (tk\<lparr>started := True, scheduled := scheduled tk + 1\<rparr>, False)
      else if tick tk then (tk\<lparr>tick := False, scheduled := scheduled tk + 1\<rparr>, True)
      else (tk, False))"

text \<open>
  \<^verbatim>\<open>InfoDisplay\<close>: the two flags and the number that the label text
  \<^verbatim>\<open>'Rows cleared: ' + str(numRowsCleared)\<close> shows.
\<close>

record InfoDisplay =
  showPausedLabel :: bool
  showGameoverLabel :: bool
  rowsClearedLabel :: int

text \<open>
  \<^verbatim>\<open>Game\<close>. \<open>input\<close> is the attribute \<^verbatim>\<open>action\<close> of the \<^verbatim>\<open>Input\<close> object (\<^verbatim>\<open>None\<close> when no
  key is pending); \<open>rowsCleared\<close> is the attribute that \<^verbatim>\<open>update\<close> creates on its first
  tick. \<^verbatim>\<open>tickSpeed\<close> is a constant float that is only handed to the clock.
\<close>

record game =
  paused :: bool
  lost :: bool
  numRowsCleared :: int
  board :: board
  infoDisplay :: InfoDisplay
  input :: "Input option"
  ticker :: GameTick
  rowsCleared :: "int option"

definition Game_init :: "board \<Rightarrow> game" where
  "Game_init b =
     \<lparr>paused = False, lost = False, numRowsCleared = 0, board = b,
      infoDisplay = \<lparr>showPausedLabel = False, showGameoverLabel = False, rowsClearedLabel = 0\<rparr>,
      input = None, ticker = GameTick_init False, rowsCleared = None\<rparr>"

definition addRowsCleared :: "game \<Rightarrow> int \<Rightarrow> game" where
  "addRowsCleared g n =
     (let g1 = g\<lparr>numRowsCleared := numRowsCleared g + n\<rparr>
      in g1\<lparr>infoDisplay := (infoDisplay g1)\<lparr>rowsClearedLabel := numRowsCleared g1\<rparr>\<rparr>)"

definition togglePause :: "game \<Rightarrow> game" where
  "togglePause g =
     (let g1 = g\<lparr>paused := \<not> paused g\<rparr>
      in g1\<lparr>infoDisplay := (infoDisplay g1)\<lparr>showPausedLabel := paused g1\<rparr>\<rparr>)"

text \<open>
  \<^verbatim>\<open>Game.update\<close>; \<open>k\<close> is the kind a spawn inside \<^verbatim>\<open>updateTick\<close> would draw.
  \<^verbatim>\<open>if command and command != Input.TOGGLE_PAUSE\<close>: \<^verbatim>\<open>None\<close> and \<^verbatim>\<open>TOGGLE_PAUSE\<close>
  (the integer 0) are both false.
\<close>

definition update :: "game \<Rightarrow> TetrominoType \<Rightarrow> error + game" where
  "update g k =
     (if lost g
      then Inr (g\<lparr>infoDisplay := (infoDisplay g)\<lparr>showGameoverLabel := True\<rparr>\<rparr>)
      else
        (let cmd = input g;
             g1 = g\<lparr>input := None\<rparr>;
             g2 = (if cmd = Some TOGGLE_PAUSE then togglePause g1 else g1)
         in if \<not> paused g2 \<and> \<not> lost g2
            then
              (let g3 = (case cmd of
                           None \<Rightarrow> g2
                         | Some c \<Rightarrow>
                             if c \<noteq> TOGGLE_PAUSE
                             then g2\<lparr>board := commandFallingTetromino (board g2) c\<rparr>
                             else g2)
               in case isTick (ticker g3) of
                    (tk, due) \<Rightarrow>
                      (let g4 = g3\<lparr>ticker := tk\<rparr>
                       in if due
                          then (case updateTick (board g4) k of
                                  Inl e \<Rightarrow> Inl e
                                | Inr (b', n, l) \<Rightarrow>
                                    Inr (addRowsCleared
                                           (g4\<lparr>board := b', rowsCleared := Some n, lost := l\<rparr>) n))
                          else Inr g4))
            else Inr g2))"

section \<open>Reachable boards\<close>

text \<open>
  The boards the game loop produces, each with the loss flag of the last tick:
  \<^verbatim>\<open>Game.update\<close> calls \<^verbatim>\<open>commandFallingTetromino\<close> and \<^verbatim>\<open>updateTick\<close> only while
  \<^verbatim>\<open>self.lost\<close> is false, and takes the flag from \<^verbatim>\<open>updateTick\<close>.
\<close>

inductive reachable :: "board \<Rightarrow> bool \<Rightarrow> bool" where
  init: "reachable (Board_init gw gh k1 k2) False"
| cmd: "reachable b False \<Longrightarrow> reachable (commandFallingTetromino b c) False"
| tck: "reachable b False \<Longrightarrow> updateTick b k = Inr (b', n, l) \<Longrightarrow> reachable b' l"

text \<open>
  The board invariant of the data model: the settled pieces are pairwise disjoint, each
  without a repeated cell, and the falling piece shares no cell with a settled one.
\<close>

definition settledDisjoint :: "board \<Rightarrow> bool" where
  "settledDisjoint b = distinct (nonFallingBlockCoords b)"

definition fallingDisjoint :: "board \<Rightarrow> bool" where
  "fallingDisjoint b =
     (set (blockBoardCoords (deref b (fallingTetromino b))) \<inter> set (nonFallingBlockCoords b) = {})"

text \<open>What \<^verbatim>\<open>Tetromino.clearRow\<close> leaves of one piece.\<close>

definition clearedPiece :: "int \<Rightarrow> tetromino \<Rightarrow> tetromino" where
  "clearedPiece r t = t\<lparr>blockBoardCoords := clearRowCoords r (blockBoardCoords t)\<rparr>"

text \<open>A game that has been lost, on a fresh standard board.\<close>

definition lostGame :: game where
  "lostGame = (Game_init (Board_init 10 20 LineShape SquareShape))\<lparr>lost := True\<rparr>"

section \<open>Runs of the board\<close>

text \<open>
  What the game loop does to the board, one event per call: a command for the falling
  piece, or a tick together with the kind a spawn would draw. After a tick that reports
  loss nothing more is applied, as in \<^verbatim>\<open>Game.update\<close>.
\<close>

datatype event = Cmd Input | Tick TetrominoType

fun play :: "board \<Rightarrow> event list \<Rightarrow> error + board \<times> bool" where
  "play b [] = Inr (b, False)"
| "play b (Cmd c # es) = play (commandFallingTetromino b c) es"
| "play b (Tick k # es) =
     (case updateTick b k of
        Inl e \<Rightarrow> Inl e
      | Inr (b', n, l) \<Rightarrow> if l then Inr (b', True) else play b' es)"

definition boardAfter :: "board \<Rightarrow> event list \<Rightarrow> board" where
  "boardAfter b es = (case play b es of Inl e \<Rightarrow> b | Inr (b', l) \<Rightarrow> b')"

definition lostAfter :: "board \<Rightarrow> event list \<Rightarrow> bool" where
  "lostAfter b es = (case play b es of Inl e \<Rightarrow> False | Inr (b', l) \<Rightarrow> l)"

definition played :: "board \<Rightarrow> event list \<Rightarrow> bool" where
  "played b es = (case play b es of Inl e \<Rightarrow> False | Inr r \<Rightarrow> True)"

text \<open>The number of settled cells in a row.\<close>

definition rowCount :: "board \<Rightarrow> int \<Rightarrow> int" where
  "rowCount b r = int (length (filter (\<lambda>c. snd c = r) (nonFallingBlockCoords b)))"

text \<open>
  A standard board (width 10, height 20) on which a line lies in columns 0 to 3 of row 0,
  a square stands in columns 4 and 5, and a second line has come down to columns 6 to 9
  of row 0 and is still the falling piece.
\<close>

definition rowZeroEvents :: "event list" where
  "rowZeroEvents =
     replicate 3 (Cmd MOVE_LEFT) @ replicate 22 (Tick LineShape) @
     [Cmd MOVE_RIGHT] @ replicate 21 (Tick LineShape) @
     replicate 3 (Cmd MOVE_RIGHT) @ replicate 21 (Tick TShape)"

definition rowZeroBoard :: board where
  "rowZeroBoard = boardAfter (Board_init 10 20 LineShape SquareShape) rowZeroEvents"

text \<open>The same board at the moment \<^verbatim>\<open>updateTick\<close> has appended the falling line.\<close>

definition rowZeroCommitted :: board where
  "rowZeroCommitted =
     rowZeroBoard\<lparr>tetrominos := tetrominos rowZeroBoard @ [fallingTetromino rowZeroBoard]\<rparr>"

section \<open>Invariants\<close>

text \<open>
  What holds of a board together with the loss flag of the last tick: the list of settled
  pieces names each object once and never the next piece; every reference is below
  \<open>nextRef\<close> and the settled and falling objects exist; settled cells are pairwise distinct and have their rows below \<open>H + 4\<close> (and
  not below 0 when \<open>H\<close> is not negative). While the game is not lost, the falling piece is
  not in the list, its cached cells are the computed ones, its anchor is not above the
  spawn row, it shares no cell with a settled piece, every settled cell lies below
  row \<open>H\<close>, and on a board at least 5 wide and not negative in height its position is
  valid. After a loss the falling piece is one of the settled pieces.
\<close>

definition boardInv :: "board \<Rightarrow> bool \<Rightarrow> bool" where
  "boardInv b l \<longleftrightarrow>
     distinct (tetrominos b) \<and>
     nextTetromino b \<notin> set (tetrominos b) \<and>
     nextTetromino b \<noteq> fallingTetromino b \<and>
     (\<forall>r \<in> set (tetrominos b). r < nextRef b \<and> heap b r \<noteq> None) \<and>
     fallingTetromino b < nextRef b \<and>
     nextTetromino b < nextRef b \<and>
     heap b (fallingTetromino b) \<noteq> None \<and>
     spawnY b = gridHeight b \<and>
     (0 \<le> gridWidth b \<longrightarrow> spawnX b = gridWidth b div 3) \<and>
     distinct (nonFallingBlockCoords b) \<and>
     (\<forall>c \<in> set (nonFallingBlockCoords b).
        snd c < gridHeight b + 4 \<and> (0 \<le> gridHeight b \<longrightarrow> 0 \<le> snd c)) \<and>
     (\<not> l \<longrightarrow>
        fallingTetromino b \<notin> set (tetrominos b) \<and>
        blockBoardCoords (deref b (fallingTetromino b)) =
          calcBlockBoardCoords (deref b (fallingTetromino b)) \<and>
        ypos (deref b (fallingTetromino b)) \<le> gridHeight b \<and>
        (0 \<le> gridHeight b \<longrightarrow>
           (\<forall>c \<in> set (blockBoardCoords (deref b (fallingTetromino b))). 0 \<le> snd c)) \<and>
        (\<forall>c \<in> set (nonFallingBlockCoords b). snd c < gridHeight b) \<and>
        fallingDisjoint b \<and>
        (5 \<le> gridWidth b \<longrightarrow> 0 \<le> gridHeight b \<longrightarrow> isValidPosition b)) \<and>
     (l \<longrightarrow> fallingTetromino b \<in> set (tetrominos b))"

text \<open>
  How a board \<open>b'\<close> relates to the board \<open>b\<close> it came from by clearing rows that are not
  negative: only objects of the settled list change, each keeps or loses cells, stays
  in the list while it has a cell, and no cell moves up or below row 0.
\<close>

definition clearedFrom :: "board \<Rightarrow> board \<Rightarrow> bool" where
  "clearedFrom b b' \<longleftrightarrow>
     gridWidth b' = gridWidth b \<and> gridHeight b' = gridHeight b \<and>
     spawnX b' = spawnX b \<and> spawnY b' = spawnY b \<and> nextRef b' = nextRef b \<and>
     nextTetromino b' = nextTetromino b \<and> fallingTetromino b' = fallingTetromino b \<and>
     distinct (tetrominos b') \<and>
     set (tetrominos b') \<subseteq> set (tetrominos b) \<and>
     (\<forall>p. p \<notin> set (tetrominos b) \<longrightarrow> heap b' p = heap b p) \<and>
     (\<forall>p \<in> set (tetrominos b). heap b' p \<noteq> None) \<and>
     (\<forall>p \<in> set (tetrominos b).
        blockBoardCoords (deref b' p) \<noteq> [] \<longrightarrow> p \<in> set (tetrominos b')) \<and>
     (\<forall>p \<in> set (tetrominos b). \<forall>c' \<in> set (blockBoardCoords (deref b' p)).
        \<exists>c \<in> set (blockBoardCoords (deref b p)).
          snd c' \<le> snd c \<and> (0 \<le> snd c \<longrightarrow> 0 \<le> snd c')) \<and>
     (distinct (nonFallingBlockCoords b) \<longrightarrow> distinct (nonFallingBlockCoords b'))"

section \<open>Boards used as examples\<close>

text \<open>
  A board of width 2 and height 4: the line is turned upright, moved to column 0 and
  comes to rest on the floor; the square then stands at its spawn position on top of it.
\<close>

definition stackedEvents :: "event list" where
  "stackedEvents = [Cmd ROTATE_CLOCKWISE, Cmd MOVE_LEFT] @ replicate 5 (Tick TShape)"

definition stackedBoard :: board where
  "stackedBoard = boardAfter (Board_init 2 4 LineShape SquareShape) stackedEvents"

text \<open>
  The standard board on which five upright lines are stacked in column 4 up to row 19 and
  a sixth line comes to rest across their top, in row 20.
\<close>

definition toppedEvents :: "event list" where
  "toppedEvents =
     Cmd ROTATE_CLOCKWISE # replicate 21 (Tick LineShape) @
     Cmd ROTATE_CLOCKWISE # replicate 17 (Tick LineShape) @
     Cmd ROTATE_CLOCKWISE # replicate 13 (Tick LineShape) @
     Cmd ROTATE_CLOCKWISE # replicate 9 (Tick LineShape) @
     Cmd ROTATE_CLOCKWISE # replicate 5 (Tick LineShape) @
     replicate 2 (Tick LineShape)"

definition toppedBoard :: board where
  "toppedBoard = boardAfter (Board_init 10 20 LineShape LineShape) toppedEvents"

text \<open>A board of width 3, on which a line spawns across the right edge.\<close>

definition narrowStart :: board where
  "narrowStart = Board_init 3 20 LineShape SquareShape"

text \<open>The standard board with the first line moved to the left wall.\<close>

definition leftBoard :: board where
  "leftBoard = boardAfter (Board_init 10 20 LineShape SquareShape) (replicate 3 (Cmd MOVE_LEFT))"

section \<open>Properties of the pieces\<close>

lemma length_local: "length (localBlockCoordsByOrientation k d) = 4"
  by (cases k; cases d; simp)

lemma distinct_local: "distinct (localBlockCoordsByOrientation k d)"
  by (cases k; cases d; simp)

lemma length_calc: "length (calcBlockBoardCoords t) = 4"
  by (simp add: calcBlockBoardCoords_def length_local)

lemma distinct_calc: "distinct (calcBlockBoardCoords t)"
  unfolding calcBlockBoardCoords_def
  by (simp add: distinct_map distinct_local inj_on_def prod_eq_iff)

text \<open>
  C9: every entry of the shape table lists four distinct offsets, and the occupied cells
  computed by \<^verbatim>\<open>calcBlockBoardCoords\<close> (the offsets of the piece's kind and orientation,
  translated by the anchor) are four distinct cells, for every piece.
\<close>

theorem calcBlockBoardCoords_four_distinct:
  "(\<forall>k d. length (localBlockCoordsByOrientation k d) = 4 \<and>
          distinct (localBlockCoordsByOrientation k d)) \<and>
   length (calcBlockBoardCoords t) = 4 \<and> distinct (calcBlockBoardCoords t)"
  by (simp add: length_local distinct_local length_calc distinct_calc)

lemma cw4:
  "CLOCKWISE_ROTATIONS (CLOCKWISE_ROTATIONS (CLOCKWISE_ROTATIONS (CLOCKWISE_ROTATIONS d))) = d"
  by (cases d) simp_all

lemma undo_command:
  "c \<noteq> TOGGLE_PAUSE \<Longrightarrow>
     undoCommand (command t c) c = t\<lparr>blockBoardCoords := calcBlockBoardCoords t\<rparr>"
  by (cases c) (simp_all add: moveDown_def moveUp_def moveLeft_def moveRight_def
      rotateClockwise_def rotateCounterclockwise_def recalc_def calcBlockBoardCoords_def
      cw4 Let_def)

text \<open>
  C4: for each of the four commands, \<^verbatim>\<open>command\<close> followed by \<^verbatim>\<open>undoCommand\<close> gives the
  piece back with the same anchor, orientation and kind, and with the cached cells
  recomputed from them (so equal to the occupied cells before). The undo of a clockwise
  rotation is \<^verbatim>\<open>rotateCounterclockwise\<close>, which steps the clockwise table three times.
\<close>

theorem undoCommand_command_restores:
  "undoCommand (command t MOVE_DOWN) MOVE_DOWN =
     t\<lparr>blockBoardCoords := calcBlockBoardCoords t\<rparr> \<and>
   undoCommand (command t MOVE_LEFT) MOVE_LEFT =
     t\<lparr>blockBoardCoords := calcBlockBoardCoords t\<rparr> \<and>
   undoCommand (command t MOVE_RIGHT) MOVE_RIGHT =
     t\<lparr>blockBoardCoords := calcBlockBoardCoords t\<rparr> \<and>
   undoCommand (command t ROTATE_CLOCKWISE) ROTATE_CLOCKWISE =
     t\<lparr>blockBoardCoords := calcBlockBoardCoords t\<rparr> \<and>
   undoCommand t ROTATE_CLOCKWISE = rotateCounterclockwise t \<and>
   orientation (rotateCounterclockwise t) =
     CLOCKWISE_ROTATIONS (CLOCKWISE_ROTATIONS (CLOCKWISE_ROTATIONS (orientation t)))"
  using undo_command[of MOVE_DOWN t] undo_command[of MOVE_LEFT t]
    undo_command[of MOVE_RIGHT t] undo_command[of ROTATE_CLOCKWISE t]
  by (simp add: rotateCounterclockwise_def recalc_def Let_def)

section \<open>Properties of the board\<close>

lemma validCoords_iff:
  "validCoords gw nf cs \<longleftrightarrow>
     (\<forall>c \<in> set cs. 0 \<le> fst c \<and> fst c < gw \<and> 0 \<le> snd c \<and> c \<notin> set nf)"
  by (induction cs) (auto simp: Let_def)

lemma set_nonFalling:
  "set (nonFallingBlockCoords b) =
     (\<Union>r \<in> set (tetrominos b). set (blockBoardCoords (deref b r)))"
  by (auto simp: nonFallingBlockCoords_def)

text \<open>
  C2: \<^verbatim>\<open>isValidPosition\<close> is true exactly when every cell of the falling piece has a
  column in \<open>[0, W)\<close>, a row that is not negative (no upper bound), and is a cell of no
  piece of \<^verbatim>\<open>self.tetrominos\<close>.
\<close>

theorem isValidPosition_iff:
  "isValidPosition b \<longleftrightarrow>
     (\<forall>c \<in> set (blockBoardCoords (deref b (fallingTetromino b))).
        0 \<le> fst c \<and> fst c < gridWidth b \<and> 0 \<le> snd c \<and>
        (\<forall>r \<in> set (tetrominos b). c \<notin> set (blockBoardCoords (deref b r))))"
  by (auto simp: isValidPosition_def validCoords_iff set_nonFalling)

theorem isValidPosition_iff_witness:
  "isValidPosition (Board_init 10 20 LineShape SquareShape) \<and>
   \<not> isValidPosition (Board_init 4 20 LineShape SquareShape)"
  unfolding isValidPosition_iff
  by (simp add: Board_init_def spawnTetromino_def deref_def Tetromino_init_def
      setPosition_def recalc_def calcBlockBoardCoords_def NEXT_X_def NEXT_Y_def Let_def)

subsection \<open>Clearing rows\<close>

lemma clearRowCoords_map_filter:
  "clearRowCoords r cs =
     map (\<lambda>c. if snd c > r then (fst c, snd c - 1) else c) (filter (\<lambda>c. snd c \<noteq> r) cs)"
  by (induction cs) auto

lemma clearRowCoords_append:
  "clearRowCoords r (xs @ ys) = clearRowCoords r xs @ clearRowCoords r ys"
  by (induction xs) auto

lemma clearRowCoords_concat:
  "clearRowCoords r (concat xss) = concat (map (clearRowCoords r) xss)"
  by (induction xss) (auto simp: clearRowCoords_append)

lemma distinct_clearRowCoords: "distinct cs \<Longrightarrow> distinct (clearRowCoords r cs)"
  unfolding clearRowCoords_map_filter
  by (rule distinct_map[THEN iffD2]) (auto simp: inj_on_def prod_eq_iff split: if_splits)

lemma clearRowCoords_origin:
  "c' \<in> set (clearRowCoords r cs) \<Longrightarrow>
     \<exists>c \<in> set cs. snd c \<noteq> r \<and> c' = (if snd c > r then (fst c, snd c - 1) else c)"
  unfolding clearRowCoords_map_filter by auto

lemma clearRowCoords_rows:
  assumes "c' \<in> set (clearRowCoords r cs)"
  shows "\<exists>c \<in> set cs. fst c' = fst c \<and> snd c' \<le> snd c \<and> snd c - 1 \<le> snd c' \<and>
            (0 \<le> r \<longrightarrow> 0 \<le> snd c \<longrightarrow> 0 \<le> snd c')"
proof -
  obtain c where c: "c \<in> set cs" "snd c \<noteq> r"
      "c' = (if snd c > r then (fst c, snd c - 1) else c)"
    using clearRowCoords_origin[OF assms] by blast
  show ?thesis
    by (rule bexI[OF _ c(1)]) (use c(2,3) in \<open>auto split: if_splits\<close>)
qed

lemma clearRowLoop_distinct:
  "distinct ps \<Longrightarrow>
   clearRowLoop h r ps kept =
     ((\<lambda>q. if q \<in> set ps then Some (clearedPiece r (the (h q))) else h q),
      kept @ filter (\<lambda>p. clearRowCoords r (blockBoardCoords (the (h p))) \<noteq> []) ps)"
proof (induction ps arbitrary: h kept)
  case Nil
  then show ?case by simp
next
  case (Cons p ps)
  define h' where "h' = h(p \<mapsto> clearedPiece r (the (h p)))"
  have notin: "p \<notin> set ps" and d: "distinct ps" using Cons.prems by auto
  have same: "\<And>q. q \<in> set ps \<Longrightarrow> h' q = h q"
    using notin by (auto simp: h'_def)
  have heap_eq: "(\<lambda>q. if q \<in> set ps then Some (clearedPiece r (the (h' q))) else h' q) =
        (\<lambda>q. if q \<in> set (p # ps) then Some (clearedPiece r (the (h q))) else h q)"
    using notin by (auto simp: fun_eq_iff h'_def)
  have filt_eq: "filter (\<lambda>q. clearRowCoords r (blockBoardCoords (the (h' q))) \<noteq> []) ps
      = filter (\<lambda>q. clearRowCoords r (blockBoardCoords (the (h q))) \<noteq> []) ps"
    by (rule filter_cong) (simp_all add: same)
  have step: "clearRowLoop h r (p # ps) kept =
      clearRowLoop h' r ps
        (if clearRowCoords r (blockBoardCoords (the (h p))) \<noteq> [] then kept @ [p] else kept)"
    by (simp add: Tetromino_clearRow_def clearedPiece_def Let_def h'_def)
  show ?case
    unfolding step Cons.IH[OF d] heap_eq filt_eq by simp
qed

lemma clearRow_distinct:
  assumes "distinct (tetrominos b)"
  shows "clearRow b r = b\<lparr>heap := (\<lambda>q. if q \<in> set (tetrominos b) then Some (clearedPiece r (deref b q)) else heap b q),
                          tetrominos := filter (\<lambda>p. clearRowCoords r (blockBoardCoords (deref b p)) \<noteq> []) (tetrominos b)\<rparr>"
  unfolding clearRow_def deref_def clearRowLoop_distinct[OF assms] by simp

lemma nonFalling_clearRow:
  assumes "distinct (tetrominos b)"
  shows "nonFallingBlockCoords (clearRow b r) = clearRowCoords r (nonFallingBlockCoords b)"
proof -
  let ?f = "\<lambda>p. clearRowCoords r (blockBoardCoords (deref b p))"
  let ?kept = "filter (\<lambda>p. ?f p \<noteq> []) (tetrominos b)"
  have drop: "concat (map ?f (filter (\<lambda>p. ?f p \<noteq> []) ps)) = concat (map ?f ps)" for ps
    by (induction ps) auto
  have tets: "tetrominos (clearRow b r) = ?kept"
    by (simp add: clearRow_distinct[OF assms])
  have cell: "blockBoardCoords (deref (clearRow b r) p) = ?f p" if "p \<in> set (tetrominos b)" for p
    using that by (simp add: clearRow_distinct[OF assms] deref_def clearedPiece_def)
  have mapeq: "map (\<lambda>p. blockBoardCoords (deref (clearRow b r) p)) ?kept = map ?f ?kept"
    by (rule map_cong) (auto simp: cell)
  have "nonFallingBlockCoords (clearRow b r) = concat (map ?f ?kept)"
    by (simp only: nonFallingBlockCoords_def tets mapeq)
  also have "\<dots> = concat (map ?f (tetrominos b))" by (rule drop)
  also have "\<dots> = clearRowCoords r (nonFallingBlockCoords b)"
    by (simp add: nonFallingBlockCoords_def clearRowCoords_concat comp_def)
  finally show ?thesis .
qed

text \<open>
  C3: \<^verbatim>\<open>clearRows\<close> runs \<^verbatim>\<open>clearRow\<close> once for each given row, highest row first. On a
  board whose list of settled pieces names no object twice, \<^verbatim>\<open>clearRow(r)\<close> leaves of
  every settled piece the cells off row \<open>r\<close>, in their order, those above \<open>r\<close> one row
  lower and those below \<open>r\<close> as they were; it keeps in the list the pieces that still have
  a cell, touches no other object, and the list again names no object twice.
\<close>

theorem clearRows_clearRow:
  "(\<exists>ds. clearRows b rows = foldl clearRow b ds \<and> mset ds = mset rows \<and> sorted (rev ds)) \<and>
   (distinct (tetrominos b) \<longrightarrow>
      (\<forall>p \<in> set (tetrominos b).
         deref (clearRow b r) p =
           (deref b p)\<lparr>blockBoardCoords :=
              map (\<lambda>c. if snd c > r then (fst c, snd c - 1) else c)
                (filter (\<lambda>c. snd c \<noteq> r) (blockBoardCoords (deref b p)))\<rparr>) \<and>
      tetrominos (clearRow b r) =
        filter (\<lambda>p. blockBoardCoords (deref (clearRow b r) p) \<noteq> []) (tetrominos b) \<and>
      (\<forall>p. p \<notin> set (tetrominos b) \<longrightarrow> heap (clearRow b r) p = heap b p) \<and>
      distinct (tetrominos (clearRow b r)))"
proof -
  have "clearRows b rows = foldl clearRow b (rev (sort rows)) \<and>
        mset (rev (sort rows)) = mset rows \<and> sorted (rev (rev (sort rows)))"
    by (simp add: clearRows_def)
  then have first: "\<exists>ds. clearRows b rows = foldl clearRow b ds \<and> mset ds = mset rows \<and>
      sorted (rev ds)"
    by blast
  have second: "(\<forall>p \<in> set (tetrominos b).
         deref (clearRow b r) p =
           (deref b p)\<lparr>blockBoardCoords :=
              map (\<lambda>c. if snd c > r then (fst c, snd c - 1) else c)
                (filter (\<lambda>c. snd c \<noteq> r) (blockBoardCoords (deref b p)))\<rparr>) \<and>
      tetrominos (clearRow b r) =
        filter (\<lambda>p. blockBoardCoords (deref (clearRow b r) p) \<noteq> []) (tetrominos b) \<and>
      (\<forall>p. p \<notin> set (tetrominos b) \<longrightarrow> heap (clearRow b r) p = heap b p) \<and>
      distinct (tetrominos (clearRow b r))"
    if d: "distinct (tetrominos b)"
  proof -
    have cell: "deref (clearRow b r) p = clearedPiece r (deref b p)"
      if "p \<in> set (tetrominos b)" for p
      using that by (simp add: clearRow_distinct[OF d] deref_def)
    have "filter (\<lambda>p. blockBoardCoords (deref (clearRow b r) p) \<noteq> []) (tetrominos b) =
          filter (\<lambda>p. clearRowCoords r (blockBoardCoords (deref b p)) \<noteq> []) (tetrominos b)"
      by (rule filter_cong) (simp_all add: cell clearedPiece_def)
    then have kept: "tetrominos (clearRow b r) =
        filter (\<lambda>p. blockBoardCoords (deref (clearRow b r) p) \<noteq> []) (tetrominos b)"
      by (simp add: clearRow_distinct[OF d])
    have other: "\<forall>p. p \<notin> set (tetrominos b) \<longrightarrow> heap (clearRow b r) p = heap b p"
      by (simp add: clearRow_distinct[OF d])
    have dist: "distinct (tetrominos (clearRow b r))"
      using d by (simp add: clearRow_distinct[OF d])
    show ?thesis
      using kept other dist
      by (simp add: cell clearedPiece_def clearRowCoords_map_filter)
  qed
  show ?thesis
    using first second by blast
qed

theorem clearRows_clearRow_witness:
  "distinct (tetrominos rowZeroCommitted) \<and>
   tetrominos rowZeroCommitted = [0, 1, 2] \<and>
   blockBoardCoords (deref rowZeroCommitted 1) = [(4, 0), (4, 1), (5, 0), (5, 1)] \<and>
   blockBoardCoords (deref (clearRow rowZeroCommitted 0) 1) = [(4, 0), (5, 0)]"
proof -
  have d: "distinct (tetrominos rowZeroCommitted)"
    by code_simp
  have t: "tetrominos rowZeroCommitted = [0, 1, 2]"
    by code_simp
  have c: "blockBoardCoords (deref rowZeroCommitted 1) = [(4, 0), (4, 1), (5, 0), (5, 1)]"
    by code_simp
  show ?thesis
    using d t c clearRows_clearRow[of rowZeroCommitted "[0]" 0] by simp
qed

subsection \<open>Full rows\<close>

lemma initRowCounts_fold:
  "foldl (\<lambda>rc i. rc(i \<mapsto> (0::int))) m xs = (\<lambda>i. if i \<in> set xs then Some 0 else m i)"
  by (induction xs arbitrary: m) (auto simp: fun_eq_iff)

lemma initRowCounts_apply:
  "initRowCounts n i = (if 0 \<le> i \<and> i < n then Some 0 else None)"
  by (auto simp: initRowCounts_def initRowCounts_fold)

lemma countRows_Inr:
  "\<forall>c \<in> set cs. rc (snd c) \<noteq> None \<Longrightarrow>
     countRows rc cs =
       Inr (\<lambda>i. case rc i of None \<Rightarrow> None
                 | Some v \<Rightarrow> Some (v + int (length (filter (\<lambda>c. snd c = i) cs))))"
proof (induction cs arbitrary: rc)
  case Nil
  show ?case by (auto simp: fun_eq_iff split: option.splits)
next
  case (Cons c cs)
  obtain v where v: "rc (snd c) = Some v" using Cons.prems by auto
  define rc' where "rc' = rc(snd c \<mapsto> v + 1)"
  have ok: "\<forall>d \<in> set cs. rc' (snd d) \<noteq> None"
    using Cons.prems by (auto simp: rc'_def)
  have step: "countRows rc (c # cs) = countRows rc' cs"
    by (simp add: v rc'_def)
  have "(\<lambda>i. case rc' i of None \<Rightarrow> None
                | Some w \<Rightarrow> Some (w + int (length (filter (\<lambda>c. snd c = i) cs)))) =
        (\<lambda>i. case rc i of None \<Rightarrow> None
                | Some w \<Rightarrow> Some (w + int (length (filter (\<lambda>d. snd d = i) (c # cs)))))"
    by (auto simp: fun_eq_iff rc'_def v split: option.splits)
  then show ?case
    unfolding step Cons.IH[OF ok] by simp
qed

lemma countRows_Inl:
  "\<exists>c \<in> set cs. rc (snd c) = None \<Longrightarrow> \<exists>e. countRows rc cs = Inl e"
proof (induction cs arbitrary: rc)
  case Nil
  then show ?case by simp
next
  case (Cons c cs)
  show ?case
  proof (cases "rc (snd c)")
    case None
    then show ?thesis by simp
  next
    case (Some v)
    obtain d where d: "d \<in> set cs" "rc (snd d) = None"
      using Cons.prems Some by auto
    then have "snd d \<noteq> snd c" using Some by auto
    with d have "\<exists>d \<in> set cs. (rc(snd c \<mapsto> v + 1)) (snd d) = None"
      by (intro bexI[of _ d]) auto
    then have "\<exists>e. countRows (rc(snd c \<mapsto> v + 1)) cs = Inl e"
      by (rule Cons.IH[of "rc(snd c \<mapsto> v + 1)"])
    then show ?thesis by (simp add: Some)
  qed
qed

lemma findFullRows_Inr:
  assumes "\<forall>c \<in> set (nonFallingBlockCoords b). 0 \<le> snd c \<and> snd c < gridHeight b + 4"
  shows "findFullRows b =
           Inr (filter (\<lambda>r. rowCount b r = gridWidth b) [0..gridHeight b + 3])"
proof -
  let ?rc = "initRowCounts (gridHeight b + STARTING_ZONE_HEIGHT)"
  have ok: "\<forall>c \<in> set (nonFallingBlockCoords b). ?rc (snd c) \<noteq> None"
    using assms by (simp add: initRowCounts_apply STARTING_ZONE_HEIGHT_def)
  have keys: "gridHeight b + STARTING_ZONE_HEIGHT - 1 = gridHeight b + 3"
    by (simp add: STARTING_ZONE_HEIGHT_def)
  have "filter (\<lambda>row. (case ?rc row of None \<Rightarrow> None
            | Some v \<Rightarrow> Some (v + int (length (filter (\<lambda>c. snd c = row) (nonFallingBlockCoords b)))))
            = Some (gridWidth b)) [0..gridHeight b + 3]
      = filter (\<lambda>r. rowCount b r = gridWidth b) [0..gridHeight b + 3]"
    by (rule filter_cong)
       (auto simp: initRowCounts_apply STARTING_ZONE_HEIGHT_def rowCount_def)
  then show ?thesis
    unfolding findFullRows_def countRows_Inr[OF ok] keys by simp
qed

lemma findFullRows_Inl:
  assumes "\<not> (\<forall>c \<in> set (nonFallingBlockCoords b). 0 \<le> snd c \<and> snd c < gridHeight b + 4)"
  shows "\<exists>e. findFullRows b = Inl e"
proof -
  have "\<exists>c \<in> set (nonFallingBlockCoords b).
          initRowCounts (gridHeight b + STARTING_ZONE_HEIGHT) (snd c) = None"
    using assms by (auto simp: initRowCounts_apply STARTING_ZONE_HEIGHT_def)
  from countRows_Inl[OF this] show ?thesis
    by (auto simp: findFullRows_def)
qed

lemma findFullRows_cases:
  "findFullRows b = Inr rows \<longleftrightarrow>
     (\<forall>c \<in> set (nonFallingBlockCoords b). 0 \<le> snd c \<and> snd c < gridHeight b + 4) \<and>
     rows = filter (\<lambda>r. rowCount b r = gridWidth b) [0..gridHeight b + 3]"
  using findFullRows_Inr[of b] findFullRows_Inl[of b] by (metis Inl_Inr_False sum.inject(2))

text \<open>
  C6: when \<^verbatim>\<open>findFullRows\<close> returns, its list holds exactly the rows \<open>r\<close> of
  \<open>[0, H + 4)\<close> in which the pieces of \<^verbatim>\<open>self.tetrominos\<close> (the falling piece is not
  among them) have \<open>W\<close> cells, each row once; it returns whenever every settled cell has
  its row in \<open>[0, H + 4)\<close>. On the standard board of width 10 with six settled cells in
  row 0, once the line whose four cells fill the rest of row 0 has been appended, the
  result is the row 0 alone.
\<close>

theorem findFullRows_exact:
  "(findFullRows b = Inr rows \<longrightarrow>
      set rows = {r. 0 \<le> r \<and> r < gridHeight b + STARTING_ZONE_HEIGHT \<and>
                     rowCount b r = gridWidth b} \<and>
      distinct rows) \<and>
   ((\<forall>c \<in> set (nonFallingBlockCoords b).
        0 \<le> snd c \<and> snd c < gridHeight b + STARTING_ZONE_HEIGHT)
      \<longrightarrow> (\<exists>rs. findFullRows b = Inr rs)) \<and>
   gridWidth rowZeroCommitted = 10 \<and>
   length (filter (\<lambda>c. snd c = 0) (nonFallingBlockCoords rowZeroBoard)) = 6 \<and>
   map snd (blockBoardCoords (deref rowZeroBoard (fallingTetromino rowZeroBoard))) =
     [0, 0, 0, 0] \<and>
   findFullRows rowZeroCommitted = Inr [0]"
proof -
  have "gridWidth rowZeroCommitted = 10"
    by code_simp
  moreover have "length (filter (\<lambda>c. snd c = 0) (nonFallingBlockCoords rowZeroBoard)) = 6"
    by code_simp
  moreover have
    "map snd (blockBoardCoords (deref rowZeroBoard (fallingTetromino rowZeroBoard))) =
       [0, 0, 0, 0]"
    by code_simp
  moreover have "findFullRows rowZeroCommitted = Inr [0]"
    by code_simp
  ultimately show ?thesis
    using findFullRows_Inr[of b]
    by (auto simp: findFullRows_cases STARTING_ZONE_HEIGHT_def)
qed

theorem findFullRows_exact_witness:
  "findFullRows rowZeroCommitted = Inr [0] \<and>
   set [0] = {r. 0 \<le> r \<and> r < gridHeight rowZeroCommitted + STARTING_ZONE_HEIGHT \<and>
                 rowCount rowZeroCommitted r = gridWidth rowZeroCommitted}"
proof -
  have h: "findFullRows rowZeroCommitted = Inr [0]"
    by code_simp
  show ?thesis
    using h findFullRows_exact[of rowZeroCommitted "[0]"] by simp
qed

subsection \<open>The invariant is kept\<close>

lemma local_rows: "c \<in> set (localBlockCoordsByOrientation k d) \<Longrightarrow> 0 \<le> snd c \<and> snd c \<le> 3"
  by (cases k; cases d; auto)

lemma local_cols: "c \<in> set (localBlockCoordsByOrientation k d) \<Longrightarrow> 0 \<le> fst c \<and> fst c \<le> 3"
  by (cases k; cases d; auto)

lemma calc_cols:
  "c \<in> set (calcBlockBoardCoords t) \<Longrightarrow> xpos t \<le> fst c \<and> fst c \<le> xpos t + 3"
  using local_cols by (fastforce simp: calcBlockBoardCoords_def)

lemma calc_rows:
  "c \<in> set (calcBlockBoardCoords t) \<Longrightarrow> ypos t \<le> snd c \<and> snd c \<le> ypos t + 3"
  using local_rows by (fastforce simp: calcBlockBoardCoords_def)

lemma nonFalling_heap_upd:
  "p \<notin> set (tetrominos b) \<Longrightarrow>
     nonFallingBlockCoords (b\<lparr>heap := (heap b)(p \<mapsto> t)\<rparr>) = nonFallingBlockCoords b"
  unfolding nonFallingBlockCoords_def
  by (rule arg_cong[where f = concat], rule map_cong) (auto simp: deref_def)

lemma calc_recalc [simp]: "calcBlockBoardCoords (recalc t) = calcBlockBoardCoords t"
  by (simp add: recalc_def calcBlockBoardCoords_def)

lemma coords_recalc [simp]: "blockBoardCoords (recalc t) = calcBlockBoardCoords t"
  by (simp add: recalc_def)

lemma command_sync:
  "blockBoardCoords t = calcBlockBoardCoords t \<Longrightarrow>
     blockBoardCoords (command t c) = calcBlockBoardCoords (command t c)"
  by (cases c) (simp_all add: moveDown_def moveLeft_def moveRight_def rotateClockwise_def)

lemma command_ypos: "ypos (command t c) \<le> ypos t"
  by (cases c) (simp_all add: moveDown_def moveLeft_def moveRight_def rotateClockwise_def recalc_def)

lemma undo_command_sync:
  "blockBoardCoords t = calcBlockBoardCoords t \<Longrightarrow> undoCommand (command t c) c = t"
  using undo_command[of c t] by (cases "c = TOGGLE_PAUSE") auto

text \<open>A command on a falling piece whose cached cells are the computed ones.\<close>

lemma commandFalling_cases:
  assumes h: "heap b (fallingTetromino b) = Some t" and s: "blockBoardCoords t = calcBlockBoardCoords t"
  shows "commandFallingTetromino b c =
          (if isValidPosition (b\<lparr>heap := (heap b)(fallingTetromino b \<mapsto> command t c)\<rparr>)
           then b\<lparr>heap := (heap b)(fallingTetromino b \<mapsto> command t c)\<rparr> else b)"
proof -
  have "(heap b)(fallingTetromino b \<mapsto> t) = heap b"
    using h by (rule fun_upd_idem)
  then show ?thesis
    using h by (simp add: commandFallingTetromino_def deref_def Let_def undo_command_sync[OF s])
qed

lemma moved_inv:
  assumes inv: "boardInv b False"
    and t: "heap b (fallingTetromino b) = Some t"
    and v: "isValidPosition (b\<lparr>heap := (heap b)(fallingTetromino b \<mapsto> command t c)\<rparr>)"
  shows "boardInv (b\<lparr>heap := (heap b)(fallingTetromino b \<mapsto> command t c)\<rparr>) False"
proof -
  let ?f = "fallingTetromino b"
  let ?b1 = "b\<lparr>heap := (heap b)(?f \<mapsto> command t c)\<rparr>"
  have fnot: "?f \<notin> set (tetrominos b)" using inv by (simp add: boardInv_def)
  have nf: "nonFallingBlockCoords ?b1 = nonFallingBlockCoords b"
    using fnot by (rule nonFalling_heap_upd)
  have d1: "deref ?b1 ?f = command t c" by (simp add: deref_def)
  have dt: "deref b ?f = t" using t by (simp add: deref_def)
  have sync: "blockBoardCoords t = calcBlockBoardCoords t"
    using inv dt by (simp add: boardInv_def)
  have valid: "\<forall>c' \<in> set (blockBoardCoords (command t c)).
      0 \<le> snd c' \<and> c' \<notin> set (nonFallingBlockCoords b)"
    using v by (simp add: isValidPosition_def validCoords_iff nf d1)
  have yp: "ypos (command t c) \<le> gridHeight b"
    using command_ypos[of t c] inv dt by (simp add: boardInv_def)
  show ?thesis
    using inv valid yp command_sync[OF sync, of c] v
    by (auto simp: boardInv_def nf d1 fallingDisjoint_def)
qed

lemma commandFalling_inv:
  assumes inv: "boardInv b False"
  shows "boardInv (commandFallingTetromino b c) False"
proof -
  obtain t where t: "heap b (fallingTetromino b) = Some t"
    using inv by (auto simp: boardInv_def)
  have sync: "blockBoardCoords t = calcBlockBoardCoords t"
    using inv t by (simp add: boardInv_def deref_def)
  show ?thesis
    unfolding commandFalling_cases[OF t sync]
    using inv moved_inv[OF inv t] by simp
qed


text \<open>Clearing rows keeps the frame of the board.\<close>

lemma clearedFrom_refl: "distinct (tetrominos b) \<Longrightarrow>
    (\<forall>p \<in> set (tetrominos b). heap b p \<noteq> None) \<Longrightarrow> clearedFrom b b"
  by (auto simp: clearedFrom_def)

lemma clearedFrom_trans:
  assumes 1: "clearedFrom b b'" and 2: "clearedFrom b' b''"
  shows "clearedFrom b b''"
proof -
  have sub: "set (tetrominos b'') \<subseteq> set (tetrominos b)"
    using 1 2 by (auto simp: clearedFrom_def)
  have frame: "\<forall>p. p \<notin> set (tetrominos b) \<longrightarrow> heap b'' p = heap b p"
    using 1 2 by (auto simp: clearedFrom_def)
  have nn: "\<forall>p \<in> set (tetrominos b). heap b'' p \<noteq> None"
  proof
    fix p assume p: "p \<in> set (tetrominos b)"
    show "heap b'' p \<noteq> None"
    proof (cases "p \<in> set (tetrominos b')")
      case True
      then show ?thesis using 2 by (simp add: clearedFrom_def)
    next
      case False
      then have "heap b'' p = heap b' p" using 2 by (simp add: clearedFrom_def)
      then show ?thesis using 1 p by (simp add: clearedFrom_def)
    qed
  qed
  have kept: "\<forall>p \<in> set (tetrominos b).
      blockBoardCoords (deref b'' p) \<noteq> [] \<longrightarrow> p \<in> set (tetrominos b'')"
  proof (intro ballI impI)
    fix p assume p: "p \<in> set (tetrominos b)" and ne: "blockBoardCoords (deref b'' p) \<noteq> []"
    show "p \<in> set (tetrominos b'')"
    proof (cases "p \<in> set (tetrominos b')")
      case True
      then show ?thesis using 2 ne by (simp add: clearedFrom_def)
    next
      case False
      then have "heap b'' p = heap b' p" using 2 by (simp add: clearedFrom_def)
      then have "deref b'' p = deref b' p" by (simp add: deref_def)
      then have "p \<in> set (tetrominos b')" using 1 p ne by (simp add: clearedFrom_def)
      then show ?thesis using False by simp
    qed
  qed
  have rows: "\<forall>p \<in> set (tetrominos b). \<forall>c'' \<in> set (blockBoardCoords (deref b'' p)).
        \<exists>c \<in> set (blockBoardCoords (deref b p)).
          snd c'' \<le> snd c \<and> (0 \<le> snd c \<longrightarrow> 0 \<le> snd c'')"
  proof (intro ballI)
    fix p c'' assume p: "p \<in> set (tetrominos b)"
      and c'': "c'' \<in> set (blockBoardCoords (deref b'' p))"
    have "\<exists>c' \<in> set (blockBoardCoords (deref b' p)).
            snd c'' \<le> snd c' \<and> (0 \<le> snd c' \<longrightarrow> 0 \<le> snd c'')"
    proof (cases "p \<in> set (tetrominos b')")
      case True
      then show ?thesis using 2 c'' by (simp add: clearedFrom_def)
    next
      case False
      then have "heap b'' p = heap b' p" using 2 by (simp add: clearedFrom_def)
      then have "deref b'' p = deref b' p" by (simp add: deref_def)
      then show ?thesis using c'' by auto
    qed
    then obtain c' where c': "c' \<in> set (blockBoardCoords (deref b' p))"
      "snd c'' \<le> snd c'" "0 \<le> snd c' \<longrightarrow> 0 \<le> snd c''" by blast
    obtain c where c: "c \<in> set (blockBoardCoords (deref b p))"
      "snd c' \<le> snd c" "0 \<le> snd c \<longrightarrow> 0 \<le> snd c'"
      using 1 p c'(1) unfolding clearedFrom_def by blast
    show "\<exists>c \<in> set (blockBoardCoords (deref b p)).
          snd c'' \<le> snd c \<and> (0 \<le> snd c \<longrightarrow> 0 \<le> snd c'')"
      by (rule bexI[OF _ c(1)]) (use c c' in auto)
  qed
  show ?thesis
    unfolding clearedFrom_def
    using sub frame nn kept rows 1 2 by (simp add: clearedFrom_def)
qed

lemma clearRow_clearedFrom:
  assumes d: "distinct (tetrominos b)" and r: "0 \<le> r"
  shows "clearedFrom b (clearRow b r)"
proof -
  have rows: "\<forall>p \<in> set (tetrominos b). \<forall>c' \<in> set (blockBoardCoords (deref (clearRow b r) p)).
        \<exists>c \<in> set (blockBoardCoords (deref b p)).
          snd c' \<le> snd c \<and> (0 \<le> snd c \<longrightarrow> 0 \<le> snd c')"
  proof (intro ballI)
    fix p c' assume p: "p \<in> set (tetrominos b)"
      and c': "c' \<in> set (blockBoardCoords (deref (clearRow b r) p))"
    have "blockBoardCoords (deref (clearRow b r) p) = clearRowCoords r (blockBoardCoords (deref b p))"
      using p by (simp add: clearRow_distinct[OF d] deref_def clearedPiece_def)
    with c' have "c' \<in> set (clearRowCoords r (blockBoardCoords (deref b p)))" by simp
    from clearRowCoords_rows[OF this] r
    show "\<exists>c \<in> set (blockBoardCoords (deref b p)).
          snd c' \<le> snd c \<and> (0 \<le> snd c \<longrightarrow> 0 \<le> snd c')" by blast
  qed
  have dn: "distinct (nonFallingBlockCoords b) \<longrightarrow> distinct (nonFallingBlockCoords (clearRow b r))"
    by (simp add: nonFalling_clearRow[OF d] distinct_clearRowCoords)
  have fields: "gridWidth (clearRow b r) = gridWidth b \<and> gridHeight (clearRow b r) = gridHeight b \<and>
     spawnX (clearRow b r) = spawnX b \<and> spawnY (clearRow b r) = spawnY b \<and>
     nextRef (clearRow b r) = nextRef b \<and>
     nextTetromino (clearRow b r) = nextTetromino b \<and>
     fallingTetromino (clearRow b r) = fallingTetromino b \<and>
     distinct (tetrominos (clearRow b r)) \<and>
     set (tetrominos (clearRow b r)) \<subseteq> set (tetrominos b) \<and>
     (\<forall>p. p \<notin> set (tetrominos b) \<longrightarrow> heap (clearRow b r) p = heap b p) \<and>
     (\<forall>p \<in> set (tetrominos b). heap (clearRow b r) p \<noteq> None) \<and>
     (\<forall>p \<in> set (tetrominos b).
        blockBoardCoords (deref (clearRow b r) p) \<noteq> [] \<longrightarrow> p \<in> set (tetrominos (clearRow b r)))"
    using d by (auto simp: clearRow_distinct[OF d] deref_def clearedPiece_def)
  show ?thesis
    unfolding clearedFrom_def using fields rows dn by blast
qed

lemma foldl_clearRow_clearedFrom:
  "distinct (tetrominos b) \<Longrightarrow> \<forall>p \<in> set (tetrominos b). heap b p \<noteq> None \<Longrightarrow>
     \<forall>r \<in> set ds. 0 \<le> r \<Longrightarrow> clearedFrom b (foldl clearRow b ds)"
proof (induction ds arbitrary: b)
  case Nil
  then show ?case by (simp add: clearedFrom_refl)
next
  case (Cons r ds)
  have 1: "clearedFrom b (clearRow b r)"
    using Cons.prems by (intro clearRow_clearedFrom) auto
  have d': "distinct (tetrominos (clearRow b r))"
    using 1 by (simp add: clearedFrom_def)
  have nn: "\<forall>p \<in> set (tetrominos (clearRow b r)). heap (clearRow b r) p \<noteq> None"
    using 1 unfolding clearedFrom_def by blast
  have 2: "clearedFrom (clearRow b r) (foldl clearRow (clearRow b r) ds)"
    using Cons.prems by (intro Cons.IH[OF d' nn]) auto
  show ?case using clearedFrom_trans[OF 1 2] by simp
qed

lemma clearRows_clearedFrom:
  "distinct (tetrominos b) \<Longrightarrow> \<forall>p \<in> set (tetrominos b). heap b p \<noteq> None \<Longrightarrow>
     \<forall>r \<in> set rows. 0 \<le> r \<Longrightarrow> clearedFrom b (clearRows b rows)"
  unfolding clearRows_def by (rule foldl_clearRow_clearedFrom) auto


text \<open>Spawning.\<close>

lemma in_startZone_iff:
  "inStartZoneCoords gh cs \<longleftrightarrow> (\<exists>c \<in> set cs. gh \<le> snd c)"
  by (induction cs) auto

lemma spawn_fields:
  "gridWidth (spawnTetromino b k) = gridWidth b"
  "gridHeight (spawnTetromino b k) = gridHeight b"
  "spawnX (spawnTetromino b k) = spawnX b"
  "spawnY (spawnTetromino b k) = spawnY b"
  "tetrominos (spawnTetromino b k) = tetrominos b"
  "fallingTetromino (spawnTetromino b k) = nextTetromino b"
  "nextTetromino (spawnTetromino b k) = nextRef b"
  "nextRef (spawnTetromino b k) = nextRef b + 1"
  "heap (spawnTetromino b k) =
     (heap b)(nextTetromino b \<mapsto> setPosition (deref b (nextTetromino b)) (spawnX b) (spawnY b),
              nextRef b \<mapsto> setPosition (Tetromino_init k) NEXT_X NEXT_Y)"
  by (simp_all add: spawnTetromino_def Let_def deref_def)

lemma nonFalling_spawn:
  assumes "nextTetromino b \<notin> set (tetrominos b)" "\<forall>r \<in> set (tetrominos b). r < nextRef b"
  shows "nonFallingBlockCoords (spawnTetromino b k) = nonFallingBlockCoords b"
proof -
  have "nextRef b \<notin> set (tetrominos b)" using assms(2) by auto
  then show ?thesis
    unfolding nonFallingBlockCoords_def spawn_fields
    using assms(1)
    by (intro arg_cong[where f = concat] map_cong) (auto simp: deref_def spawn_fields)
qed

lemma spawn_inv:
  assumes "distinct (tetrominos b)" "nextTetromino b \<notin> set (tetrominos b)"
    "\<forall>r \<in> set (tetrominos b). r < nextRef b \<and> heap b r \<noteq> None"
    "nextTetromino b < nextRef b" "spawnY b = gridHeight b"
    "distinct (nonFallingBlockCoords b)"
    "\<forall>c \<in> set (nonFallingBlockCoords b). snd c < gridHeight b \<and> (0 \<le> gridHeight b \<longrightarrow> 0 \<le> snd c)"
    "0 \<le> gridWidth b \<longrightarrow> spawnX b = gridWidth b div 3"
  shows "boardInv (spawnTetromino b k) False"
proof -
  let ?b' = "spawnTetromino b k"
  let ?t = "setPosition (deref b (nextTetromino b)) (spawnX b) (spawnY b)"
  have nf: "nonFallingBlockCoords ?b' = nonFallingBlockCoords b"
    using assms(2,3) by (intro nonFalling_spawn) auto
  have ne: "nextTetromino b \<noteq> nextRef b" using assms(4) by simp
  have df: "deref ?b' (fallingTetromino ?b') = ?t"
    using ne by (simp add: deref_def spawn_fields)
  have yt: "ypos ?t = gridHeight b" by (simp add: setPosition_def recalc_def assms(5))
  have ct: "blockBoardCoords ?t = calcBlockBoardCoords ?t" by (simp add: setPosition_def)
  have rows: "\<forall>c \<in> set (blockBoardCoords ?t). gridHeight b \<le> snd c"
    using calc_rows[of _ ?t] by (simp add: ct yt)
  have disj: "set (blockBoardCoords ?t) \<inter> set (nonFallingBlockCoords b) = {}"
    using rows assms(7) by fastforce
  have heapok: "\<forall>r \<in> set (tetrominos b). heap ?b' r \<noteq> None"
    using assms(3) by (simp add: spawn_fields)
  have xt: "xpos ?t = spawnX b" by (simp add: setPosition_def recalc_def)
  have valid: "isValidPosition ?b'" if w: "5 \<le> gridWidth b" and h: "0 \<le> gridHeight b"
  proof -
    have sx: "spawnX b = gridWidth b div 3" using assms(8) w by simp
    have "\<forall>c \<in> set (blockBoardCoords ?t). 0 \<le> fst c \<and> fst c < gridWidth b"
    proof
      fix c assume "c \<in> set (blockBoardCoords ?t)"
      then have "spawnX b \<le> fst c \<and> fst c \<le> spawnX b + 3"
        using calc_cols[of c ?t] by (simp add: ct xt)
      then show "0 \<le> fst c \<and> fst c < gridWidth b"
        using w unfolding sx by presburger
    qed
    then have "\<forall>c \<in> set (blockBoardCoords ?t).
        0 \<le> fst c \<and> fst c < gridWidth b \<and> 0 \<le> snd c \<and> c \<notin> set (nonFallingBlockCoords b)"
      using rows disj h by fastforce
    then show ?thesis
      unfolding isValidPosition_def validCoords_iff nf df spawn_fields(1) .
  qed
  show ?thesis
    unfolding boardInv_def nf df fallingDisjoint_def
    using assms rows disj heapok ne yt ct valid
    by (auto simp: spawn_fields)
qed

lemma init_inv: "boardInv (Board_init gw gh k1 k2) False"
proof -
  define b0 where "b0 = \<lparr>gridWidth = gw, gridHeight = gh,
                spawnX = (if 0 \<le> gw then gw div 3 else - ((- gw) div 3)),
                spawnY = gh,
                heap = [0 \<mapsto> Tetromino_init k1], nextRef = 1,
                nextTetromino = 0, fallingTetromino = 0, tetrominos = []\<rparr>"
  have "boardInv (spawnTetromino b0 k2) False"
    by (rule spawn_inv) (simp_all add: b0_def nonFallingBlockCoords_def)
  moreover have "Board_init gw gh k1 k2 = spawnTetromino b0 k2"
    by (simp add: Board_init_def b0_def Let_def spawnTetromino_def)
  ultimately show ?thesis by simp
qed


text \<open>One tick.\<close>

lemma updateTick_cases:
  assumes h: "heap b (fallingTetromino b) = Some t" and s: "blockBoardCoords t = calcBlockBoardCoords t"
  shows "updateTick b k =
     (if isValidPosition (b\<lparr>heap := (heap b)(fallingTetromino b \<mapsto> moveDown t)\<rparr>)
      then Inr (b\<lparr>heap := (heap b)(fallingTetromino b \<mapsto> moveDown t)\<rparr>, 0, False)
      else case findFullRows (b\<lparr>tetrominos := tetrominos b @ [fallingTetromino b]\<rparr>) of
             Inl e \<Rightarrow> Inl e
           | Inr fullRows \<Rightarrow>
               Inr (if isInStartZone b
                        (deref (clearRows (b\<lparr>tetrominos := tetrominos b @ [fallingTetromino b]\<rparr>) fullRows)
                           (fallingTetromino b))
                    then clearRows (b\<lparr>tetrominos := tetrominos b @ [fallingTetromino b]\<rparr>) fullRows
                    else spawnTetromino
                           (clearRows (b\<lparr>tetrominos := tetrominos b @ [fallingTetromino b]\<rparr>) fullRows) k,
                    int (length fullRows),
                    isInStartZone b
                      (deref (clearRows (b\<lparr>tetrominos := tetrominos b @ [fallingTetromino b]\<rparr>) fullRows)
                         (fallingTetromino b))))"
proof -
  let ?b3 = "b\<lparr>tetrominos := tetrominos b @ [fallingTetromino b]\<rparr>"
  have idem: "(heap b)(fallingTetromino b \<mapsto> t) = heap b"
    using h by (rule fun_upd_idem)
  have rollback: "moveUp (moveDown t) = t"
    using undo_command_sync[OF s, of MOVE_DOWN] by simp
  have fields: "fallingTetromino (clearRows ?b3 rows) = fallingTetromino b \<and>
        gridHeight (clearRows ?b3 rows) = gridHeight b" for rows
  proof -
    have "fallingTetromino (foldl clearRow c ds) = fallingTetromino c \<and>
          gridHeight (foldl clearRow c ds) = gridHeight c" for c ds
      by (induction ds arbitrary: c) (auto simp: clearRow_def split: prod.splits)
    then show ?thesis by (simp add: clearRows_def)
  qed
  show ?thesis
    using h
    by (simp add: updateTick_def deref_def Let_def rollback idem fields isInStartZone_def
          split: sum.splits)
qed


lemma committed_facts:
  assumes inv: "boardInv b False"
  defines "b3 \<equiv> b\<lparr>tetrominos := tetrominos b @ [fallingTetromino b]\<rparr>"
  shows "distinct (tetrominos b3)"
    and "\<forall>p \<in> set (tetrominos b3). p < nextRef b \<and> heap b3 p \<noteq> None"
    and "nonFallingBlockCoords b3 =
           nonFallingBlockCoords b @ blockBoardCoords (deref b (fallingTetromino b))"
    and "distinct (nonFallingBlockCoords b3)"
    and "\<forall>c \<in> set (nonFallingBlockCoords b3).
           snd c < gridHeight b + 4 \<and> (0 \<le> gridHeight b \<longrightarrow> 0 \<le> snd c)"
proof -
  let ?t = "deref b (fallingTetromino b)"
  show "distinct (tetrominos b3)"
    using inv by (simp add: b3_def boardInv_def)
  show "\<forall>p \<in> set (tetrominos b3). p < nextRef b \<and> heap b3 p \<noteq> None"
    using inv by (auto simp: b3_def boardInv_def)
  show nf: "nonFallingBlockCoords b3 = nonFallingBlockCoords b @ blockBoardCoords ?t"
    by (simp add: b3_def nonFallingBlockCoords_def deref_def)
  have sync: "blockBoardCoords ?t = calcBlockBoardCoords ?t"
    using inv by (simp add: boardInv_def)
  have "distinct (blockBoardCoords ?t)"
    by (simp add: sync distinct_calc)
  then show "distinct (nonFallingBlockCoords b3)"
    using inv by (auto simp: nf boardInv_def fallingDisjoint_def)
  have "\<forall>c \<in> set (blockBoardCoords ?t). snd c < gridHeight b + 4"
    using calc_rows[of _ ?t] inv by (fastforce simp: sync boardInv_def)
  then show "\<forall>c \<in> set (nonFallingBlockCoords b3).
           snd c < gridHeight b + 4 \<and> (0 \<le> gridHeight b \<longrightarrow> 0 \<le> snd c)"
    using inv by (auto simp: nf boardInv_def)
qed

lemma cleared_cell_origin:
  assumes cf: "clearedFrom b3 b4" and c': "c' \<in> set (nonFallingBlockCoords b4)"
  shows "\<exists>p \<in> set (tetrominos b3). c' \<in> set (blockBoardCoords (deref b4 p)) \<and>
           (\<exists>c \<in> set (blockBoardCoords (deref b3 p)).
              snd c' \<le> snd c \<and> (0 \<le> snd c \<longrightarrow> 0 \<le> snd c'))"
proof -
  obtain p where p: "p \<in> set (tetrominos b4)" "c' \<in> set (blockBoardCoords (deref b4 p))"
    using c' by (auto simp: set_nonFalling)
  have p3: "p \<in> set (tetrominos b3)" using cf p(1) by (auto simp: clearedFrom_def)
  have "\<exists>c \<in> set (blockBoardCoords (deref b3 p)).
              snd c' \<le> snd c \<and> (0 \<le> snd c \<longrightarrow> 0 \<le> snd c')"
    using cf p3 p(2) unfolding clearedFrom_def by blast
  then show ?thesis using p3 p(2) by blast
qed

lemma updateTick_inv:
  assumes inv: "boardInv b False" and u: "updateTick b k = Inr (b', n, l)"
  shows "boardInv b' l"
proof -
  let ?f = "fallingTetromino b"
  let ?b3 = "b\<lparr>tetrominos := tetrominos b @ [?f]\<rparr>"
  obtain t where t: "heap b ?f = Some t"
    using inv by (auto simp: boardInv_def)
  have dt: "deref b ?f = t" using t by (simp add: deref_def)
  have sync: "blockBoardCoords t = calcBlockBoardCoords t"
    using inv dt by (simp add: boardInv_def)
  note cases = updateTick_cases[OF t sync, of k]
  show ?thesis
  proof (cases "isValidPosition (b\<lparr>heap := (heap b)(?f \<mapsto> moveDown t)\<rparr>)")
    case True
    then have "b' = b\<lparr>heap := (heap b)(?f \<mapsto> command t MOVE_DOWN)\<rparr>" and "\<not> l"
      using u cases by auto
    then show ?thesis
      using moved_inv[OF inv t, of MOVE_DOWN] True by simp
  next
    case False
    then obtain rows where rows: "findFullRows ?b3 = Inr rows"
      using u cases by (auto split: sum.splits)
    define b4 where "b4 = clearRows ?b3 rows"
    have lval: "l = isInStartZone b (deref b4 ?f)"
      and b': "b' = (if l then b4 else spawnTetromino b4 k)"
      using u cases False rows by (auto simp: b4_def)
    have "\<forall>r \<in> set rows. 0 \<le> r"
      using rows by (auto simp: findFullRows_cases)
    then have cf: "clearedFrom ?b3 b4"
      unfolding b4_def
      using committed_facts(1,2)[OF inv] by (intro clearRows_clearedFrom) auto
    have fields: "gridWidth b4 = gridWidth b" "gridHeight b4 = gridHeight b"
      "spawnX b4 = spawnX b" "spawnY b4 = spawnY b" "nextRef b4 = nextRef b"
      "nextTetromino b4 = nextTetromino b" "fallingTetromino b4 = ?f"
      using cf by (simp_all add: clearedFrom_def)
    have d4: "distinct (tetrominos b4)" using cf by (simp add: clearedFrom_def)
    have sub: "set (tetrominos b4) \<subseteq> insert ?f (set (tetrominos b))"
      using cf by (auto simp: clearedFrom_def)
    have alloc: "\<forall>p \<in> set (tetrominos b4). p < nextRef b \<and> heap b4 p \<noteq> None"
    proof
      fix p assume "p \<in> set (tetrominos b4)"
      then have "p \<in> set (tetrominos ?b3)" using cf by (auto simp: clearedFrom_def)
      then show "p < nextRef b \<and> heap b4 p \<noteq> None"
        using committed_facts(2)[OF inv] cf unfolding clearedFrom_def by blast
    qed
    have hf: "heap b4 ?f \<noteq> None"
      using cf unfolding clearedFrom_def by simp
    have dn: "distinct (nonFallingBlockCoords b4)"
      using cf committed_facts(4)[OF inv] by (simp add: clearedFrom_def)
    have bound: "\<forall>c' \<in> set (nonFallingBlockCoords b4).
           snd c' < gridHeight b + 4 \<and> (0 \<le> gridHeight b \<longrightarrow> 0 \<le> snd c')"
    proof
      fix c' assume "c' \<in> set (nonFallingBlockCoords b4)"
      from cleared_cell_origin[OF cf this]
      obtain p c where "p \<in> set (tetrominos ?b3)" "c \<in> set (blockBoardCoords (deref ?b3 p))"
        "snd c' \<le> snd c" "0 \<le> snd c \<longrightarrow> 0 \<le> snd c'" by blast
      moreover from this have "c \<in> set (nonFallingBlockCoords ?b3)"
        by (auto simp: set_nonFalling)
      ultimately show "snd c' < gridHeight b + 4 \<and> (0 \<le> gridHeight b \<longrightarrow> 0 \<le> snd c')"
        using committed_facts(5)[OF inv] by fastforce
    qed
    have nxt: "nextTetromino b \<notin> set (tetrominos b4)"
      using sub inv by (auto simp: boardInv_def)
    show ?thesis
    proof (cases l)
      case True
      then have "b' = b4" using b' by simp
      moreover have "blockBoardCoords (deref b4 ?f) \<noteq> []"
        using True lval by (auto simp: isInStartZone_def)
      then have "?f \<in> set (tetrominos b4)"
        using cf unfolding clearedFrom_def by simp
      ultimately show ?thesis
        using True inv d4 nxt alloc hf dn bound
        by (simp add: boardInv_def fields)
    next
      case False
      then have b'': "b' = spawnTetromino b4 k" using b' by simp
      have low: "\<forall>c \<in> set (blockBoardCoords (deref b4 ?f)). snd c < gridHeight b"
        using False lval by (auto simp: isInStartZone_def in_startZone_iff not_le)
      have settled: "\<forall>c' \<in> set (nonFallingBlockCoords b4).
          snd c' < gridHeight b4 \<and> (0 \<le> gridHeight b4 \<longrightarrow> 0 \<le> snd c')"
      proof
        fix c' assume c': "c' \<in> set (nonFallingBlockCoords b4)"
        from cleared_cell_origin[OF cf c']
        obtain p c where p: "p \<in> set (tetrominos ?b3)"
          "c' \<in> set (blockBoardCoords (deref b4 p))"
          "c \<in> set (blockBoardCoords (deref ?b3 p))" "snd c' \<le> snd c" by blast
        have "snd c' < gridHeight b"
        proof (cases "p = ?f")
          case True
          then show ?thesis using low p(2) by simp
        next
          case False
          then have "p \<in> set (tetrominos b)" using p(1) by simp
          then have "c \<in> set (nonFallingBlockCoords b)"
            using p(3) by (auto simp: set_nonFalling deref_def)
          then have "snd c < gridHeight b" using inv by (simp add: boardInv_def)
          then show ?thesis using p(4) by simp
        qed
        then show "snd c' < gridHeight b4 \<and> (0 \<le> gridHeight b4 \<longrightarrow> 0 \<le> snd c')"
          using bound c' by (simp add: fields)
      qed
      have "boardInv (spawnTetromino b4 k) False"
        using d4 nxt alloc inv dn settled
        by (intro spawn_inv) (simp_all add: fields boardInv_def)
      then show ?thesis using False b'' by simp
    qed
  qed
qed

lemma updateTick_total:
  assumes inv: "boardInv b False" and h: "0 \<le> gridHeight b"
  shows "\<exists>res. updateTick b k = Inr res"
proof -
  let ?f = "fallingTetromino b"
  let ?b3 = "b\<lparr>tetrominos := tetrominos b @ [?f]\<rparr>"
  obtain t where t: "heap b ?f = Some t"
    using inv by (auto simp: boardInv_def)
  have sync: "blockBoardCoords t = calcBlockBoardCoords t"
    using inv t by (simp add: boardInv_def deref_def)
  have "\<forall>c \<in> set (nonFallingBlockCoords ?b3). 0 \<le> snd c \<and> snd c < gridHeight ?b3 + 4"
    using committed_facts(5)[OF inv] h by auto
  from findFullRows_Inr[OF this] obtain rows where rows: "findFullRows ?b3 = Inr rows"
    by blast
  show ?thesis
  proof (cases "isValidPosition (b\<lparr>heap := (heap b)(?f \<mapsto> moveDown t)\<rparr>)")
    case True
    then show ?thesis unfolding updateTick_cases[OF t sync] by auto
  next
    case False
    then show ?thesis unfolding updateTick_cases[OF t sync] rows by auto
  qed
qed

lemma reachable_inv: "reachable b l \<Longrightarrow> boardInv b l"
  by (induction rule: reachable.induct)
     (auto intro: init_inv commandFalling_inv updateTick_inv)

lemma play_reachable:
  "reachable b False \<Longrightarrow> play b es = Inr (b', l) \<Longrightarrow> reachable b' l"
proof (induction es arbitrary: b)
  case Nil
  then show ?case by simp
next
  case (Cons e es)
  show ?case
  proof (cases e)
    case (Cmd c)
    then show ?thesis
      using Cons.prems Cons.IH[of "commandFallingTetromino b c"]
      by (auto intro: reachable.cmd)
  next
    case (Tick k)
    then obtain b1 n l1 where u: "updateTick b k = Inr (b1, n, l1)"
      using Cons.prems(2) by (auto split: sum.splits)
    have r1: "reachable b1 l1" using reachable.tck[OF Cons.prems(1) u] .
    show ?thesis
    proof (cases l1)
      case True
      then show ?thesis using Cons.prems(2) Tick u r1 by simp
    next
      case False
      then show ?thesis using Cons.prems(2) Tick u r1 Cons.IH[of b1] by simp
    qed
  qed
qed

subsection \<open>Ticks, commands and the invariant on reachable boards\<close>

lemma foldl_clearRowCoords_Nil: "foldl (\<lambda>cs r. clearRowCoords r cs) [] ds = []"
  by (induction ds) auto

lemma foldl_clearRow_cells:
  "distinct (tetrominos b) \<Longrightarrow> \<forall>q \<in> set (tetrominos b). heap b q \<noteq> None \<Longrightarrow>
   \<forall>r \<in> set ds. 0 \<le> r \<Longrightarrow> p \<in> set (tetrominos b) \<Longrightarrow>
     blockBoardCoords (deref (foldl clearRow b ds) p) =
       foldl (\<lambda>cs r. clearRowCoords r cs) (blockBoardCoords (deref b p)) ds"
proof (induction ds arbitrary: b)
  case Nil
  then show ?case by simp
next
  case (Cons r ds)
  let ?b1 = "clearRow b r"
  have d: "distinct (tetrominos b)" by (rule Cons.prems(1))
  have cf1: "clearedFrom b ?b1"
    using Cons.prems by (intro clearRow_clearedFrom) auto
  have d1: "distinct (tetrominos ?b1)" using cf1 by (simp add: clearedFrom_def)
  have nn1: "\<forall>q \<in> set (tetrominos ?b1). heap ?b1 q \<noteq> None"
    using cf1 unfolding clearedFrom_def by blast
  have nonneg: "\<forall>r \<in> set ds. 0 \<le> r" using Cons.prems(3) by simp
  have cell: "blockBoardCoords (deref ?b1 p) = clearRowCoords r (blockBoardCoords (deref b p))"
    using Cons.prems(4) by (simp add: clearRow_distinct[OF d] deref_def clearedPiece_def)
  show ?case
  proof (cases "p \<in> set (tetrominos ?b1)")
    case True
    from Cons.IH[OF d1 nn1 nonneg True] show ?thesis by (simp add: cell)
  next
    case False
    then have empty: "blockBoardCoords (deref ?b1 p) = []"
      using cf1 Cons.prems(4) unfolding clearedFrom_def by blast
    have "clearedFrom ?b1 (foldl clearRow ?b1 ds)"
      using d1 nn1 nonneg by (rule foldl_clearRow_clearedFrom)
    then have "heap (foldl clearRow ?b1 ds) p = heap ?b1 p"
      using False by (simp add: clearedFrom_def)
    then have "deref (foldl clearRow ?b1 ds) p = deref ?b1 p" by (simp add: deref_def)
    then show ?thesis
      using empty cell by (simp add: foldl_clearRowCoords_Nil)
  qed
qed

lemma reachable_boardAfter:
  assumes "played (Board_init gw gh k1 k2) es"
  shows "reachable (boardAfter (Board_init gw gh k1 k2) es) (lostAfter (Board_init gw gh k1 k2) es)"
proof -
  obtain b' l where p: "play (Board_init gw gh k1 k2) es = Inr (b', l)"
    using assms by (auto simp: played_def split: sum.splits)
  have "reachable b' l"
    using reachable.init p by (rule play_reachable)
  then show ?thesis by (simp add: boardAfter_def lostAfter_def p)
qed

lemma reachable_rowZeroBoard: "reachable rowZeroBoard False"
proof -
  have "played (Board_init 10 20 LineShape SquareShape) rowZeroEvents" by code_simp
  moreover have "lostAfter (Board_init 10 20 LineShape SquareShape) rowZeroEvents = False" by code_simp
  ultimately show ?thesis
    using reachable_boardAfter[of 10 20 LineShape SquareShape rowZeroEvents]
    by (simp add: rowZeroBoard_def)
qed

lemma reachable_stackedBoard: "reachable stackedBoard False"
proof -
  have "played (Board_init 2 4 LineShape SquareShape) stackedEvents" by code_simp
  moreover have "lostAfter (Board_init 2 4 LineShape SquareShape) stackedEvents = False" by code_simp
  ultimately show ?thesis
    using reachable_boardAfter[of 2 4 LineShape SquareShape stackedEvents]
    by (simp add: stackedBoard_def)
qed

lemma reachable_toppedBoard: "reachable toppedBoard True"
proof -
  have "played (Board_init 10 20 LineShape LineShape) toppedEvents" by code_simp
  moreover have "lostAfter (Board_init 10 20 LineShape LineShape) toppedEvents = True" by code_simp
  ultimately show ?thesis
    using reachable_boardAfter[of 10 20 LineShape LineShape toppedEvents]
    by (simp add: toppedBoard_def)
qed

lemma reachable_leftBoard: "reachable leftBoard False"
proof -
  have "played (Board_init 10 20 LineShape SquareShape) (replicate 3 (Cmd MOVE_LEFT))" by code_simp
  moreover have "lostAfter (Board_init 10 20 LineShape SquareShape) (replicate 3 (Cmd MOVE_LEFT)) = False" by code_simp
  ultimately show ?thesis
    using reachable_boardAfter[of 10 20 LineShape SquareShape "replicate 3 (Cmd MOVE_LEFT)"]
    by (simp add: leftBoard_def)
qed

text \<open>
  C1 (as amended): on a board the game has reached without loss, \<^verbatim>\<open>updateTick\<close> moves the
  falling piece down; if that position is valid, the moved board is returned with
  \<open>(0, False)\<close> and nothing else changes. Otherwise the move is undone, which restores
  the board, the falling object is appended to the settled list, the full rows are found
  and cleared (or the \<^verbatim>\<open>KeyError\<close> of \<^verbatim>\<open>findFullRows\<close> is passed on), and loss is reported
  exactly when the falling object, which is now a settled one and has gone through the
  clearing, still has a cell in a row \<open>\<ge> H\<close>: its cells are the resting cells with each
  cleared row, highest first, dropped and the cells above moved down. The next piece is
  spawned exactly when no loss is reported, and the pair returned is the number of full
  rows with the loss flag.
\<close>

theorem updateTick_spec:
  assumes r: "reachable b False"
  shows "let f = fallingTetromino b;
             b1 = b\<lparr>heap := (heap b)(f \<mapsto> moveDown (deref b f))\<rparr>;
             b3 = b\<lparr>tetrominos := tetrominos b @ [f]\<rparr>
         in (isValidPosition b1 \<longrightarrow> updateTick b k = Inr (b1, 0, False)) \<and>
            (\<not> isValidPosition b1 \<longrightarrow>
               (case findFullRows b3 of
                  Inl e \<Rightarrow> updateTick b k = Inl e
                | Inr rows \<Rightarrow>
                    let b4 = clearRows b3 rows;
                        cells = foldl (\<lambda>cs r. clearRowCoords r cs)
                                  (blockBoardCoords (deref b f)) (rev (sort rows));
                        gameLost = (\<exists>c \<in> set cells. gridHeight b \<le> snd c)
                    in blockBoardCoords (deref b4 f) = cells \<and>
                       updateTick b k =
                         Inr (if gameLost then b4 else spawnTetromino b4 k,
                              int (length rows), gameLost)))"
proof -
  let ?f = "fallingTetromino b"
  let ?b3 = "b\<lparr>tetrominos := tetrominos b @ [?f]\<rparr>"
  have inv: "boardInv b False" using r by (rule reachable_inv)
  obtain t where t: "heap b ?f = Some t"
    using inv by (auto simp: boardInv_def)
  have dt: "deref b ?f = t" using t by (simp add: deref_def)
  have sync: "blockBoardCoords t = calcBlockBoardCoords t"
    using inv dt by (simp add: boardInv_def)
  note cases = updateTick_cases[OF t sync, of k]
  have cells: "blockBoardCoords (deref (clearRows ?b3 rows) ?f) =
      foldl (\<lambda>cs r. clearRowCoords r cs) (blockBoardCoords t) (rev (sort rows))"
    if rows: "findFullRows ?b3 = Inr rows" for rows
  proof -
    have nonneg: "\<forall>r \<in> set (rev (sort rows)). 0 \<le> r"
      using rows by (auto simp: findFullRows_cases)
    have "blockBoardCoords (deref (foldl clearRow ?b3 (rev (sort rows))) ?f) =
      foldl (\<lambda>cs r. clearRowCoords r cs) (blockBoardCoords (deref ?b3 ?f)) (rev (sort rows))"
      using committed_facts(1,2)[OF inv] nonneg
      by (intro foldl_clearRow_cells) auto
    then show ?thesis by (simp add: clearRows_def deref_def t)
  qed
  show ?thesis
    using cases cells
    by (auto simp: Let_def dt isInStartZone_def in_startZone_iff split: sum.splits)
qed


theorem updateTick_spec_witness:
  "reachable rowZeroBoard False \<and>
   \<not> isValidPosition
       (rowZeroBoard\<lparr>heap := (heap rowZeroBoard)(fallingTetromino rowZeroBoard \<mapsto>
          moveDown (deref rowZeroBoard (fallingTetromino rowZeroBoard)))\<rparr>) \<and>
   findFullRows rowZeroCommitted = Inr [0] \<and>
   updateTick rowZeroBoard TShape =
     Inr (spawnTetromino (clearRows rowZeroCommitted [0]) TShape, 1, False)"
proof -
  have v: "\<not> isValidPosition
       (rowZeroBoard\<lparr>heap := (heap rowZeroBoard)(fallingTetromino rowZeroBoard \<mapsto>
          moveDown (deref rowZeroBoard (fallingTetromino rowZeroBoard)))\<rparr>)"
    by code_simp
  have f: "findFullRows (rowZeroBoard\<lparr>tetrominos :=
             tetrominos rowZeroBoard @ [fallingTetromino rowZeroBoard]\<rparr>) = Inr [0]"
    by code_simp
  have c: "foldl (\<lambda>cs r. clearRowCoords r cs)
             (blockBoardCoords (deref rowZeroBoard (fallingTetromino rowZeroBoard)))
             (rev (sort [0])) = []"
    by code_simp
  have g: "gridHeight rowZeroBoard = 20"
    by code_simp
  show ?thesis
    using updateTick_spec[OF reachable_rowZeroBoard, of TShape] v f c g reachable_rowZeroBoard
    by (simp add: Let_def rowZeroCommitted_def)
qed

text \<open>
  On the board of width 2 the square comes to rest in rows 4 and 5, inside the start zone
  of a board of height 4; both rows are full, are cleared, and the tick reports two
  cleared rows and no loss.
\<close>

theorem updateTick_loss_counterexample:
  "reachable stackedBoard False \<and>
   gridHeight stackedBoard = 4 \<and>
   blockBoardCoords (deref stackedBoard (fallingTetromino stackedBoard)) =
     [(0, 4), (0, 5), (1, 4), (1, 5)] \<and>
   \<not> isValidPosition
       (stackedBoard\<lparr>heap := (heap stackedBoard)(fallingTetromino stackedBoard \<mapsto>
          moveDown (deref stackedBoard (fallingTetromino stackedBoard)))\<rparr>) \<and>
   map_sum id snd (updateTick stackedBoard ZShape) = Inr (2, False)"
proof -
  have "gridHeight stackedBoard = 4"
    by code_simp
  moreover have "blockBoardCoords (deref stackedBoard (fallingTetromino stackedBoard)) =
     [(0, 4), (0, 5), (1, 4), (1, 5)]"
    by code_simp
  moreover have "\<not> isValidPosition
       (stackedBoard\<lparr>heap := (heap stackedBoard)(fallingTetromino stackedBoard \<mapsto>
          moveDown (deref stackedBoard (fallingTetromino stackedBoard)))\<rparr>)"
    by code_simp
  moreover have "map_sum id snd (updateTick stackedBoard ZShape) = Inr (2, False)"
    by code_simp
  ultimately show ?thesis
    using reachable_stackedBoard by simp
qed

text \<open>
  C5: on a board the game has reached without loss, \<^verbatim>\<open>commandFallingTetromino\<close> applies
  the command without a check beforehand; if the resulting position is invalid the undo
  gives back the very board it started from, otherwise the board with the commanded
  piece. In both cases the settled list, its objects, the next piece and the reference to
  the falling piece are unchanged.
\<close>

theorem commandFalling_rollback:
  assumes r: "reachable b False"
  shows "(\<not> isValidPosition
             (b\<lparr>heap := (heap b)(fallingTetromino b \<mapsto>
                  command (deref b (fallingTetromino b)) c)\<rparr>) \<longrightarrow>
            commandFallingTetromino b c = b) \<and>
         (isValidPosition
             (b\<lparr>heap := (heap b)(fallingTetromino b \<mapsto>
                  command (deref b (fallingTetromino b)) c)\<rparr>) \<longrightarrow>
            commandFallingTetromino b c =
              b\<lparr>heap := (heap b)(fallingTetromino b \<mapsto>
                  command (deref b (fallingTetromino b)) c)\<rparr>) \<and>
         tetrominos (commandFallingTetromino b c) = tetrominos b \<and>
         nextTetromino (commandFallingTetromino b c) = nextTetromino b \<and>
         fallingTetromino (commandFallingTetromino b c) = fallingTetromino b \<and>
         (\<forall>p \<in> set (tetrominos b). heap (commandFallingTetromino b c) p = heap b p) \<and>
         heap (commandFallingTetromino b c) (nextTetromino b) = heap b (nextTetromino b)"
proof -
  have inv: "boardInv b False" using r by (rule reachable_inv)
  obtain t where t: "heap b (fallingTetromino b) = Some t"
    using inv by (auto simp: boardInv_def)
  have dt: "deref b (fallingTetromino b) = t" using t by (simp add: deref_def)
  have sync: "blockBoardCoords t = calcBlockBoardCoords t"
    using inv dt by (simp add: boardInv_def)
  have "fallingTetromino b \<notin> set (tetrominos b)" "nextTetromino b \<noteq> fallingTetromino b"
    using inv by (simp_all add: boardInv_def)
  then show ?thesis
    unfolding commandFalling_cases[OF t sync] dt by auto
qed

theorem commandFalling_rollback_witness:
  "reachable leftBoard False \<and>
   \<not> isValidPosition
       (leftBoard\<lparr>heap := (heap leftBoard)(fallingTetromino leftBoard \<mapsto>
            command (deref leftBoard (fallingTetromino leftBoard)) MOVE_LEFT)\<rparr>) \<and>
   commandFallingTetromino leftBoard MOVE_LEFT = leftBoard"
proof -
  have v: "\<not> isValidPosition
       (leftBoard\<lparr>heap := (heap leftBoard)(fallingTetromino leftBoard \<mapsto>
            command (deref leftBoard (fallingTetromino leftBoard)) MOVE_LEFT)\<rparr>)"
    by code_simp
  show ?thesis
    using commandFalling_rollback[OF reachable_leftBoard, of MOVE_LEFT] v reachable_leftBoard
    by simp
qed

text \<open>
  C7 (as amended): on every board reached from the constructor by commands and ticks, the
  settled cells are pairwise distinct and the settled list names each object once. As
  long as no loss has been reported, the falling piece is not in the list, shares no cell
  with a settled piece, every settled cell lies below row \<open>H\<close>, and on a board at least 5
  wide and of height \<open>\<ge> 0\<close> its position is one \<^verbatim>\<open>isValidPosition\<close> accepts, so that is the
  position it is committed from. After a tick that reported loss the falling piece is
  itself in the settled list. A piece spawned on such a board has all its cells in rows
  \<open>\<ge> H\<close>.
\<close>

theorem board_invariant:
  assumes r: "reachable b l"
  shows "settledDisjoint b \<and> distinct (tetrominos b) \<and>
         (\<not> l \<longrightarrow>
            fallingDisjoint b \<and> fallingTetromino b \<notin> set (tetrominos b) \<and>
            (\<forall>c \<in> set (nonFallingBlockCoords b). snd c < gridHeight b) \<and>
            (5 \<le> gridWidth b \<longrightarrow> 0 \<le> gridHeight b \<longrightarrow> isValidPosition b)) \<and>
         (l \<longrightarrow> fallingTetromino b \<in> set (tetrominos b)) \<and>
         (\<forall>c \<in> set (blockBoardCoords
                       (deref (spawnTetromino b k) (fallingTetromino (spawnTetromino b k)))).
            gridHeight b \<le> snd c)"
proof -
  have inv: "boardInv b l" using r by (rule reachable_inv)
  let ?t = "setPosition (deref b (nextTetromino b)) (spawnX b) (spawnY b)"
  have ne: "nextTetromino b \<noteq> nextRef b" using inv by (auto simp: boardInv_def)
  have df: "deref (spawnTetromino b k) (fallingTetromino (spawnTetromino b k)) = ?t"
    using ne by (simp add: deref_def spawn_fields)
  have "ypos ?t = gridHeight b"
    using inv by (simp add: setPosition_def recalc_def boardInv_def)
  then have "\<forall>c \<in> set (blockBoardCoords ?t). gridHeight b \<le> snd c"
    using calc_rows[of _ ?t] by (simp add: setPosition_def)
  then show ?thesis
    using inv unfolding df by (simp add: boardInv_def settledDisjoint_def)
qed

theorem board_invariant_witness:
  "reachable rowZeroBoard False \<and> settledDisjoint rowZeroBoard \<and>
   fallingDisjoint rowZeroBoard \<and> isValidPosition rowZeroBoard \<and>
   reachable toppedBoard True \<and> settledDisjoint toppedBoard \<and>
   fallingTetromino toppedBoard \<in> set (tetrominos toppedBoard)"
proof -
  have "gridWidth rowZeroBoard = 10" "gridHeight rowZeroBoard = 20"
    by code_simp+
  then show ?thesis
    using board_invariant[OF reachable_rowZeroBoard, of TShape]
      board_invariant[OF reachable_toppedBoard, of TShape]
      reachable_rowZeroBoard reachable_toppedBoard
    by simp
qed

text \<open>
  On the standard board, the tick that reports loss leaves \<^verbatim>\<open>fallingTetromino\<close> naming the
  piece it has just appended to the settled list, so the falling piece shares its cells
  with a settled piece. On the board of width 3 the line spawns across the right edge,
  \<^verbatim>\<open>isValidPosition\<close> rejects that position, and the first tick commits the line there.
\<close>

theorem board_invariant_counterexample:
  "reachable toppedBoard True \<and>
   blockBoardCoords (deref toppedBoard (fallingTetromino toppedBoard)) =
     [(3, 20), (4, 20), (5, 20), (6, 20)] \<and>
   fallingTetromino toppedBoard \<in> set (tetrominos toppedBoard) \<and>
   \<not> fallingDisjoint toppedBoard \<and>
   reachable narrowStart False \<and>
   \<not> isValidPosition narrowStart \<and>
   map_sum id snd (updateTick narrowStart TShape) = Inr (0, True) \<and>
   tetrominos (boardAfter narrowStart [Tick TShape]) = [fallingTetromino narrowStart] \<and>
   blockBoardCoords (deref (boardAfter narrowStart [Tick TShape]) (fallingTetromino narrowStart)) =
     blockBoardCoords (deref narrowStart (fallingTetromino narrowStart))"
proof -
  have "blockBoardCoords (deref toppedBoard (fallingTetromino toppedBoard)) =
     [(3, 20), (4, 20), (5, 20), (6, 20)]"
    by code_simp
  moreover have "fallingTetromino toppedBoard \<in> set (tetrominos toppedBoard)"
    by code_simp
  moreover have "\<not> fallingDisjoint toppedBoard"
    by code_simp
  moreover have "reachable narrowStart False"
    unfolding narrowStart_def by (rule reachable.init)
  moreover have "\<not> isValidPosition narrowStart"
    by code_simp
  moreover have "map_sum id snd (updateTick narrowStart TShape) = Inr (0, True)"
    by code_simp
  moreover have "tetrominos (boardAfter narrowStart [Tick TShape]) = [fallingTetromino narrowStart]"
    by code_simp
  moreover have "blockBoardCoords (deref (boardAfter narrowStart [Tick TShape]) (fallingTetromino narrowStart)) =
     blockBoardCoords (deref narrowStart (fallingTetromino narrowStart))"
    by code_simp
  ultimately show ?thesis
    using reachable_toppedBoard by simp
qed

text \<open>
  C8: on every reachable board of height \<open>\<ge> 0\<close>, every settled cell has its row in
  \<open>[0, H + 4)\<close>; while the game is not lost this also holds once the falling piece is
  appended, so \<^verbatim>\<open>findFullRows\<close> finds every row key in its table and \<^verbatim>\<open>updateTick\<close>
  returns a result. (\<^verbatim>\<open>isValidPosition\<close> has no operation that can fail: the model is a
  total function to \<open>bool\<close>.)
\<close>

theorem updateTick_panic_free:
  assumes r: "reachable b l" and h: "0 \<le> gridHeight b"
  shows "(\<forall>c \<in> set (nonFallingBlockCoords b).
            0 \<le> snd c \<and> snd c < gridHeight b + STARTING_ZONE_HEIGHT) \<and>
         (\<not> l \<longrightarrow>
            (\<forall>c \<in> set (nonFallingBlockCoords
                          (b\<lparr>tetrominos := tetrominos b @ [fallingTetromino b]\<rparr>)).
               0 \<le> snd c \<and> snd c < gridHeight b + STARTING_ZONE_HEIGHT) \<and>
            (\<exists>rows. findFullRows (b\<lparr>tetrominos := tetrominos b @ [fallingTetromino b]\<rparr>) =
               Inr rows) \<and>
            (\<exists>res. updateTick b k = Inr res))"
proof -
  have inv: "boardInv b l" using r by (rule reachable_inv)
  have settled: "\<forall>c \<in> set (nonFallingBlockCoords b).
            0 \<le> snd c \<and> snd c < gridHeight b + STARTING_ZONE_HEIGHT"
    using inv h by (simp add: boardInv_def STARTING_ZONE_HEIGHT_def)
  have rest: "(\<forall>c \<in> set (nonFallingBlockCoords
                          (b\<lparr>tetrominos := tetrominos b @ [fallingTetromino b]\<rparr>)).
               0 \<le> snd c \<and> snd c < gridHeight b + STARTING_ZONE_HEIGHT) \<and>
            (\<exists>rows. findFullRows (b\<lparr>tetrominos := tetrominos b @ [fallingTetromino b]\<rparr>) =
               Inr rows) \<and>
            (\<exists>res. updateTick b k = Inr res)" if nl: "\<not> l"
  proof -
    have inv': "boardInv b False" using inv nl by simp
    have rows: "\<forall>c \<in> set (nonFallingBlockCoords
                          (b\<lparr>tetrominos := tetrominos b @ [fallingTetromino b]\<rparr>)).
               0 \<le> snd c \<and> snd c < gridHeight b + 4"
      using committed_facts(5)[OF inv'] h by auto
    have "\<forall>c \<in> set (nonFallingBlockCoords
                          (b\<lparr>tetrominos := tetrominos b @ [fallingTetromino b]\<rparr>)).
               0 \<le> snd c \<and> snd c < gridHeight
                  (b\<lparr>tetrominos := tetrominos b @ [fallingTetromino b]\<rparr>) + 4"
      using rows by simp
    from findFullRows_Inr[OF this] rows updateTick_total[OF inv' h, of k]
    show ?thesis by (simp add: STARTING_ZONE_HEIGHT_def)
  qed
  show ?thesis using settled rest by blast
qed

theorem updateTick_panic_free_witness:
  "reachable rowZeroBoard False \<and> 0 \<le> gridHeight rowZeroBoard \<and>
   (\<exists>res. updateTick rowZeroBoard TShape = Inr res)"
proof -
  have h: "0 \<le> gridHeight rowZeroBoard" and g: "gridHeight rowZeroBoard = 20"
    by code_simp+
  show ?thesis
    using updateTick_panic_free[OF reachable_rowZeroBoard h, of TShape] reachable_rowZeroBoard g
    by (simp add: STARTING_ZONE_HEIGHT_def)
qed

section \<open>Properties of the game loop\<close>

text \<open>
  \<^verbatim>\<open>Game.update\<close> keeps the board, with the game's loss flag, among the reachable ones.
\<close>

lemma update_reachable:
  assumes r: "reachable (board g) (lost g)" and u: "update g k = Inr g'"
  shows "reachable (board g') (lost g')"
proof (cases "lost g")
  case True
  then show ?thesis using r u by (auto simp: update_def)
next
  case False
  have r0: "reachable (board g) False" using r False by simp
  show ?thesis
    using u r0 False
    by (auto simp: update_def Let_def togglePause_def addRowsCleared_def
             split: if_splits option.splits prod.splits sum.splits
             intro: reachable.cmd reachable.tck)
qed

text \<open>
  C10: once \<^verbatim>\<open>self.lost\<close> is true, \<^verbatim>\<open>update\<close> only sets the game-over flag of the display:
  board, row count, pause flag, loss flag, pending input and timer stay as they are, and
  a further call changes nothing more.
\<close>

theorem update_lost_terminal:
  "lost g \<Longrightarrow>
     update g k = Inr (g\<lparr>infoDisplay := (infoDisplay g)\<lparr>showGameoverLabel := True\<rparr>\<rparr>) \<and>
     update (g\<lparr>infoDisplay := (infoDisplay g)\<lparr>showGameoverLabel := True\<rparr>\<rparr>) k' =
       Inr (g\<lparr>infoDisplay := (infoDisplay g)\<lparr>showGameoverLabel := True\<rparr>\<rparr>)"
  by (simp add: update_def)

theorem update_lost_terminal_witness:
  "lost lostGame \<and>
   update lostGame TShape =
     Inr (lostGame\<lparr>infoDisplay := (infoDisplay lostGame)\<lparr>showGameoverLabel := True\<rparr>\<rparr>)"
proof -
  have h: "lost lostGame" by (simp add: lostGame_def)
  show ?thesis using h update_lost_terminal[OF h, of TShape TShape] by simp
qed

end
